theory Spec2Isabelle
  imports Complex_Main "HOL-Library.Product_Lexorder" "HOL-Library.List_Lexorder"
    "HOL-Library.Char_ord" "HOL-Library.AList" "HOL-Library.Multiset"
begin

section \<open>The PR/GHI pipeline of script.py\<close>

text \<open>
  \<^verbatim>\<open>script.py\<close> has two stages. \<^verbatim>\<open>preprocess_data\<close> folds the rows of every PR file
  and every GHI file into one dictionary keyed by the \<^verbatim>\<open>Date\<close> cell, turns the dictionary
  into a table, converts the \<^verbatim>\<open>Date\<close> column with \<^verbatim>\<open>pd.to_datetime\<close> and sorts it.
  \<^verbatim>\<open>generate_graph\<close> derives the plotted series and the statistics printed on the chart.

  Conventions of the embedding.
  \<^item> A float cell is a \<open>real option\<close>: \<open>None\<close> is the missing value (Python's \<^verbatim>\<open>None\<close> and
    the \<^verbatim>\<open>NaN\<close> that pandas writes for an empty cell; \<^verbatim>\<open>pd.isna\<close> is true of both),
    \<open>Some x\<close> a number. IEEE doubles are idealised as reals.
  \<^item> A timestamp is a calendar day \<open>(year, month, day)\<close>, ordered lexicographically (the
    chronological order of valid dates); the time of day is not modelled. \<^verbatim>\<open>NaT\<close>, the
    result of \<^verbatim>\<open>min()\<close> on an empty date column, is \<open>None\<close>.
  \<^item> What the pandas and pathlib calls do to the file system is taken as parameters: the
    paths that \<^verbatim>\<open>rglob\<close> enumerates (in the order it enumerates them), what \<^verbatim>\<open>read_csv\<close>
    and the two column reads give for a path (\<open>None\<close> when they raise, which the
    \<^verbatim>\<open>try/except\<close> around each file swallows), what \<^verbatim>\<open>to_datetime\<close> gives for the
    \<^verbatim>\<open>Date\<close> column (\<open>None\<close> when it raises), and what \<^verbatim>\<open>pd.Timestamp\<close> makes of the
    epoch string of a reference year.
  \<^item> An exception that leaves a stage is the \<open>Inl\<close> of its result.
  Printing, the CSV written to disk and the drawing calls of matplotlib are not modelled.
\<close>

datatype error = KeyError | ValueError

subsection \<open>The merge stage: \<^verbatim>\<open>preprocess_data\<close>\<close>

text \<open>
  One value of \<^verbatim>\<open>data_dict\<close>: \<^verbatim>\<open>{'Date': date, 'PR': None, 'GHI': None}\<close>. The same record
  type, with the \<^verbatim>\<open>Date\<close> field converted, is a row of the merged table.
\<close>

record 'd entry =
  Date :: 'd
  PR :: "real option"
  GHI :: "real option"

text \<open>
  \<^verbatim>\<open>data_dict\<close> is a Python dictionary: its keys are the raw \<^verbatim>\<open>Date\<close> cells, and
  \<^verbatim>\<open>data_dict.values()\<close> lists the values in the order the keys were first inserted. An
  association list with \<open>AList.update\<close> (replace in place, or append at the end) is that.
\<close>

type_synonym 'k data_dict = "('k \<times> 'k entry) list"

text \<open>The body of the loop over the rows of a PR file (lines 38 to 42).\<close>

definition pr_row :: "'k data_dict \<Rightarrow> 'k \<times> real option \<Rightarrow> 'k data_dict" where
  "pr_row data_dict row =
     (let date = fst row;
          pr_value = snd row;
          data_dict =
            (if date \<notin> fst ` set data_dict
             then AList.update date \<lparr>Date = date, PR = None, GHI = None\<rparr> data_dict
             else data_dict)
      in AList.map_entry date (\<lambda>r. r\<lparr>PR := pr_value\<rparr>) data_dict)"

text \<open>The body of the loop over the rows of a GHI file (lines 60 to 64).\<close>

definition ghi_row :: "'k data_dict \<Rightarrow> 'k \<times> real option \<Rightarrow> 'k data_dict" where
  "ghi_row data_dict row =
     (let date = fst row;
          ghi_value = snd row;
          data_dict =
            (if date \<notin> fst ` set data_dict
             then AList.update date \<lparr>Date = date, PR = None, GHI = None\<rparr> data_dict
             else data_dict)
      in AList.map_entry date (\<lambda>r. r\<lparr>GHI := ghi_value\<rparr>) data_dict)"

text \<open>
  One file (lines 34 to 44 and 56 to 66). \<open>read_csv f\<close> is the list of the
  \<open>(Date, value)\<close> cells of the rows of \<open>f\<close>, or \<open>None\<close> when \<^verbatim>\<open>pd.read_csv\<close> or a column
  read raises. A missing column raises at the first row, before anything is written, so a
  file that raises writes nothing.
\<close>

definition pr_file ::
  "('p \<Rightarrow> ('k \<times> real option) list option) \<Rightarrow> 'k data_dict \<Rightarrow> 'p \<Rightarrow> 'k data_dict" where
  "pr_file read_csv data_dict f =
     (case read_csv f of None \<Rightarrow> data_dict | Some pr_df \<Rightarrow> foldl pr_row data_dict pr_df)"

definition ghi_file ::
  "('p \<Rightarrow> ('k \<times> real option) list option) \<Rightarrow> 'k data_dict \<Rightarrow> 'p \<Rightarrow> 'k data_dict" where
  "ghi_file read_csv data_dict f =
     (case read_csv f of None \<Rightarrow> data_dict | Some ghi_df \<Rightarrow> foldl ghi_row data_dict ghi_df)"

text \<open>
  The dictionary after both passes (lines 24 to 66). \<open>pr_found\<close> and \<open>ghi_found\<close> are the
  paths in the order \<^verbatim>\<open>rglob\<close> yields them; \<^verbatim>\<open>sorted\<close> orders them.
\<close>

definition fold_files ::
  "('p::linorder \<Rightarrow> ('k \<times> real option) list option) \<Rightarrow>
   ('p \<Rightarrow> ('k \<times> real option) list option) \<Rightarrow> 'p list \<Rightarrow> 'p list \<Rightarrow> 'k data_dict" where
  "fold_files read_pr read_ghi pr_found ghi_found =
     (let data_dict = [];
          pr_files = sort pr_found;
          data_dict = foldl (pr_file read_pr) data_dict pr_files;
          ghi_files = sort ghi_found
      in foldl (ghi_file read_ghi) data_dict ghi_files)"

text \<open>
  Lines 68 to 74. \<^verbatim>\<open>pd.DataFrame([])\<close> has no columns, so \<^verbatim>\<open>df['Date']\<close> raises
  \<^verbatim>\<open>KeyError\<close> when no row was read. \<^verbatim>\<open>pd.to_datetime\<close> is called once, on the whole
  \<^verbatim>\<open>Date\<close> column: it infers one format for the column, so whether it raises, and what a
  cell converts to, may depend on the other cells. \<open>to_datetime column\<close> is \<open>None\<close> when
  the call raises \<^verbatim>\<open>ValueError\<close>, and otherwise the timestamp that each cell of this column
  gets. \<^verbatim>\<open>sort_values\<close> is taken to be the stable \<open>sort_key\<close>; no theorem below depends
  on the order it gives to rows of equal date.
\<close>

definition to_frame ::
  "('k list \<Rightarrow> ('k \<Rightarrow> 'd::linorder) option) \<Rightarrow> 'k data_dict \<Rightarrow> error + 'd entry list" where
  "to_frame to_datetime data_dict =
     (let df = map snd data_dict
      in if df = [] then Inl KeyError
         else case to_datetime (map Date df) of
                None \<Rightarrow> Inl ValueError
              | Some dates \<Rightarrow>
                  Inr (sort_key Date
                    (map (\<lambda>r. \<lparr>Date = dates (Date r), PR = PR r, GHI = GHI r\<rparr>) df)))"

definition preprocess_data ::
  "('p::linorder \<Rightarrow> ('k \<times> real option) list option) \<Rightarrow>
   ('p \<Rightarrow> ('k \<times> real option) list option) \<Rightarrow>
   ('k list \<Rightarrow> ('k \<Rightarrow> 'd::linorder) option) \<Rightarrow>
   'p list \<Rightarrow> 'p list \<Rightarrow> error + 'd entry list" where
  "preprocess_data read_pr read_ghi to_datetime pr_found ghi_found =
     to_frame to_datetime (fold_files read_pr read_ghi pr_found ghi_found)"

text \<open>
  The words of the specification about the merge. The writes of a pass are the
  \<open>(Date, value)\<close> cells of its readable files, in the order the pass meets them; the last
  value written for a \<^verbatim>\<open>Date\<close> cell is the value of its last write, and is missing when
  the pass never wrote it. The keys of the merge are the \<^verbatim>\<open>Date\<close> cells of both passes.
\<close>

definition writes :: "('p \<Rightarrow> ('k \<times> real option) list option) \<Rightarrow> 'p list \<Rightarrow> ('k \<times> real option) list" where
  "writes read_csv files =
     concat (map (\<lambda>f. case read_csv f of None \<Rightarrow> [] | Some rows \<Rightarrow> rows) files)"

definition last_written :: "('k \<times> real option) list \<Rightarrow> 'k \<Rightarrow> real option" where
  "last_written ws k = (case map_of (rev ws) k of None \<Rightarrow> None | Some v \<Rightarrow> v)"

definition merged_keys ::
  "('p::linorder \<Rightarrow> ('k \<times> real option) list option) \<Rightarrow>
   ('p \<Rightarrow> ('k \<times> real option) list option) \<Rightarrow> 'p list \<Rightarrow> 'p list \<Rightarrow> 'k set" where
  "merged_keys read_pr read_ghi pr_found ghi_found =
     fst ` set (writes read_pr (sort pr_found)) \<union> fst ` set (writes read_ghi (sort ghi_found))"

text \<open>The \<^verbatim>\<open>Date\<close> column that line 70 hands to \<^verbatim>\<open>pd.to_datetime\<close>.\<close>

definition date_column ::
  "('p::linorder \<Rightarrow> ('k \<times> real option) list option) \<Rightarrow>
   ('p \<Rightarrow> ('k \<times> real option) list option) \<Rightarrow> 'p list \<Rightarrow> 'p list \<Rightarrow> 'k list" where
  "date_column read_pr read_ghi pr_found ghi_found =
     map Date (map snd (fold_files read_pr read_ghi pr_found ghi_found))"

text \<open>The record a key has before its first write, and the record of a key in a dictionary.\<close>

definition new_entry :: "'k \<Rightarrow> 'k entry" where
  "new_entry k = \<lparr>Date = k, PR = None, GHI = None\<rparr>"

definition entry_of :: "'k data_dict \<Rightarrow> 'k \<Rightarrow> 'k entry" where
  "entry_of d k = (case map_of d k of None \<Rightarrow> new_entry k | Some r \<Rightarrow> r)"

subsection \<open>Calendar days\<close>

type_synonym timestamp = "int \<times> int \<times> int"

definition year :: "timestamp \<Rightarrow> int" where
  "year ts = fst ts"

definition month :: "timestamp \<Rightarrow> int" where
  "month ts = fst (snd ts)"

definition day :: "timestamp \<Rightarrow> int" where
  "day ts = snd (snd ts)"

text \<open>
  The proleptic Gregorian day number, as Python's \<^verbatim>\<open>datetime\<close> computes it
  (\<^verbatim>\<open>_days_before_year\<close>, \<^verbatim>\<open>_days_before_month\<close>, \<^verbatim>\<open>_ymd2ord\<close>); \<^verbatim>\<open>(a - b).days\<close> of two
  midnight timestamps is the difference of their day numbers.
\<close>

definition is_leap :: "int \<Rightarrow> bool" where
  "is_leap y = (y mod 4 = 0 \<and> (y mod 100 \<noteq> 0 \<or> y mod 400 = 0))"

definition days_before_year :: "int \<Rightarrow> int" where
  "days_before_year y = (let p = y - 1 in p * 365 + p div 4 - p div 100 + p div 400)"

definition days_before_month :: "int \<Rightarrow> int \<Rightarrow> int" where
  "days_before_month y m =
     [0, 31, 59, 90, 120, 151, 181, 212, 243, 273, 304, 334] ! nat (m - 1)
       + (if 2 < m \<and> is_leap y then 1 else 0)"

definition days_in_month :: "int \<Rightarrow> int \<Rightarrow> int" where
  "days_in_month y m =
     (if m = 2 \<and> is_leap y then 29
      else [31, 28, 31, 30, 31, 30, 31, 31, 30, 31, 30, 31] ! nat (m - 1))"

definition valid_date :: "timestamp \<Rightarrow> bool" where
  "valid_date ts =
     (1 \<le> month ts \<and> month ts \<le> 12 \<and> 1 \<le> day ts \<and> day ts \<le> days_in_month (year ts) (month ts))"

definition toordinal :: "timestamp \<Rightarrow> int" where
  "toordinal ts = days_before_year (year ts) + days_before_month (year ts) (month ts) + day ts"

definition days_between :: "timestamp \<Rightarrow> timestamp \<Rightarrow> int" where
  "days_between a b = toordinal a - toordinal b"

text \<open>What lines 70 and 74 make of one value of the dictionary, given the converted column.\<close>

definition convert_row :: "('k \<Rightarrow> 'd) \<Rightarrow> 'k entry \<Rightarrow> 'd entry" where
  "convert_row dates r = \<lparr>Date = dates (Date r), PR = PR r, GHI = GHI r\<rparr>"

subsection \<open>A small data set\<close>

text \<open>
  Paths and \<^verbatim>\<open>Date\<close> cells are strings. Two PR files cover January 1 and 2, 2024, the
  second overwriting the PR of January 1; a third PR file and a second GHI file spell
  January 1 as \<^verbatim>\<open>2024-1-1\<close>, which \<^verbatim>\<open>pd.to_datetime\<close> reads as the same day.
\<close>

definition example_read_pr :: "string \<Rightarrow> (string \<times> real option) list option" where
  "example_read_pr f =
     (if f = ''PR/a.csv'' then Some [(''2024-01-01'', Some 80)]
      else if f = ''PR/b.csv'' then Some [(''2024-01-02'', Some 81), (''2024-01-01'', Some 79.5)]
      else if f = ''PR/c.csv'' then Some [(''2024-1-1'', Some 82)]
      else None)"

definition example_read_ghi :: "string \<Rightarrow> (string \<times> real option) list option" where
  "example_read_ghi f =
     (if f = ''GHI/g.csv'' then Some [(''2024-01-01'', Some 5.2)]
      else if f = ''GHI/h.csv'' then Some [(''2024-1-1'', Some 3.1)]
      else None)"

definition example_cell :: "string \<Rightarrow> timestamp option" where
  "example_cell s =
     (if s = ''2024-01-01'' then Some (2024, 1, 1)
      else if s = ''2024-1-1'' then Some (2024, 1, 1)
      else if s = ''2024-01-02'' then Some (2024, 1, 2)
      else None)"

definition example_to_datetime :: "string list \<Rightarrow> (string \<Rightarrow> timestamp) option" where
  "example_to_datetime column =
     (if list_all (\<lambda>s. example_cell s \<noteq> None) column
      then Some (\<lambda>s. the (example_cell s)) else None)"

text \<open>The merged table of the two PR files and the first GHI file.\<close>

definition example_df :: "timestamp entry list" where
  "example_df =
     [\<lparr>Date = (2024, 1, 1), PR = Some 79.5, GHI = Some 5.2\<rparr>,
      \<lparr>Date = (2024, 1, 2), PR = Some 81, GHI = None\<rparr>]"


text \<open>
  \<^verbatim>\<open>pd.Timestamp\<close> on the epoch string of a reference year: a year of four digits gives
  July 1 of that year, \<^verbatim>\<open>'99-07-01'\<close> is read as July 1, 1999, and \<^verbatim>\<open>'0-07-01'\<close> raises. No
  other year is used below.
\<close>

definition example_epoch_timestamp :: "int \<Rightarrow> error + timestamp" where
  "example_epoch_timestamp y =
     (if 1000 \<le> y \<and> y \<le> 9999 then Inr (y, 7, 1)
      else if y = 99 then Inr (1999, 7, 1)
      else Inl ValueError)"

subsection \<open>The pandas series operations that \<^verbatim>\<open>generate_graph\<close> calls\<close>

primrec dropna :: "'a option list \<Rightarrow> 'a list" where
  "dropna [] = []"
| "dropna (x # xs) = (case x of None \<Rightarrow> dropna xs | Some v \<Rightarrow> v # dropna xs)"

text \<open>\<^verbatim>\<open>Series.mean()\<close>: missing values are skipped; the mean of no value is \<^verbatim>\<open>NaN\<close>.\<close>

definition pd_mean :: "real option list \<Rightarrow> real option" where
  "pd_mean xs =
     (let vs = dropna xs in if vs = [] then None else Some (sum_list vs / real (length vs)))"

text \<open>\<^verbatim>\<open>Series.tail(n)\<close>: the last \<open>n\<close> rows, all of them when there are fewer.\<close>

definition tail :: "nat \<Rightarrow> 'a list \<Rightarrow> 'a list" where
  "tail n xs = drop (length xs - n) xs"

text \<open>
  \<^verbatim>\<open>Series.rolling(window, min_periods).mean()\<close>: at row \<open>i\<close> the window is the rows
  \<open>i - window + 1\<close> to \<open>i\<close> that exist; the result is the mean of the values present in
  it, and \<^verbatim>\<open>NaN\<close> when fewer than \<open>min_periods\<close> are present.
\<close>

definition rolling_window :: "nat \<Rightarrow> 'a list \<Rightarrow> nat \<Rightarrow> 'a list" where
  "rolling_window window xs i = drop (Suc i - window) (take (Suc i) xs)"

definition rolling_mean :: "nat \<Rightarrow> nat \<Rightarrow> real option list \<Rightarrow> real option list" where
  "rolling_mean window min_periods xs =
     map (\<lambda>i. let w = rolling_window window xs i
              in if length (dropna w) < min_periods then None else pd_mean w)
       [0..<length xs]"

text \<open>\<^verbatim>\<open>Series.min()\<close> and \<^verbatim>\<open>Series.max()\<close> of a date column: \<^verbatim>\<open>NaT\<close> when it is empty.\<close>

definition series_min :: "'a::linorder list \<Rightarrow> 'a option" where
  "series_min xs = (case xs of [] \<Rightarrow> None | x # ys \<Rightarrow> Some (fold min ys x))"

definition series_max :: "'a::linorder list \<Rightarrow> 'a option" where
  "series_max xs = (case xs of [] \<Rightarrow> None | x # ys \<Rightarrow> Some (fold max ys x))"

subsection \<open>The render stage: \<^verbatim>\<open>generate_graph\<close>\<close>

text \<open>Lines 107 to 111: the optional inclusive bounds (\<open>None\<close> when the argument is not given).\<close>

definition date_filter ::
  "timestamp entry list \<Rightarrow> timestamp option \<Rightarrow> timestamp option \<Rightarrow> timestamp entry list" where
  "date_filter df start_date end_date =
     (let df_plot = df;
          df_plot = (case start_date of None \<Rightarrow> df_plot
                     | Some s \<Rightarrow> filter (\<lambda>r. s \<le> Date r) df_plot);
          df_plot = (case end_date of None \<Rightarrow> df_plot
                     | Some e \<Rightarrow> filter (\<lambda>r. Date r \<le> e) df_plot)
      in df_plot)"

text \<open>Lines 119 to 129.\<close>

definition get_ghi_color :: "real option \<Rightarrow> string" where
  "get_ghi_color ghi =
     (case ghi of
        None \<Rightarrow> ''#808080''
      | Some g \<Rightarrow>
          if g < 2 then ''#00008B''
          else if 2 \<le> g \<and> g < 4 then ''#4169E1''
          else if 4 \<le> g \<and> g < 6 then ''#FFA500''
          else ''#8B4513'')"

text \<open>Lines 217 to 222: the legend, face colour and label of each band.\<close>

definition legend_elements :: "(string \<times> string) list" where
  "legend_elements =
     [(''#00008B'', ''< 2''), (''#4169E1'', ''2~4''), (''#FFA500'', ''4~6''), (''#8B4513'', ''> 6'')]"

text \<open>
  Lines 136 to 145. On an empty column \<^verbatim>\<open>first_date\<close> is \<^verbatim>\<open>NaT\<close>, whose \<^verbatim>\<open>month\<close> and
  \<^verbatim>\<open>year\<close> are \<^verbatim>\<open>nan\<close>: the comparison \<^verbatim>\<open>nan >= 7\<close> is false, \<^verbatim>\<open>ref_year\<close> is \<^verbatim>\<open>nan - 1\<close>, and
  \<^verbatim>\<open>pd.Timestamp('nan-07-01')\<close> raises \<^verbatim>\<open>ValueError\<close>.
\<close>

definition ref_year :: "timestamp option \<Rightarrow> int option" where
  "ref_year first_date =
     (case first_date of
        None \<Rightarrow> None
      | Some d \<Rightarrow> Some (if 7 \<le> month d then year d else year d - 1))"

text \<open>
  Line 145 writes the year into the string \<^verbatim>\<open>f'{ref_year}-07-01'\<close>, without padding, and
  \<^verbatim>\<open>pd.Timestamp\<close> parses the string. What the parser makes of the string of a year is
  the parameter \<open>epoch_timestamp\<close>: a year of four digits is read as written, a year of
  two digits is read as a year of a recent century, and a string that the parser cannot
  read raises.
\<close>

definition budget_start_date ::
  "(int \<Rightarrow> error + timestamp) \<Rightarrow> timestamp option \<Rightarrow> error + timestamp" where
  "budget_start_date epoch_timestamp first_date =
     (case ref_year first_date of
        None \<Rightarrow> Inl ValueError
      | Some y \<Rightarrow> epoch_timestamp y)"

text \<open>Lines 147 to 153; the epoch, a variable of the enclosing function, is the first argument.\<close>

definition calculate_budget_pr :: "timestamp \<Rightarrow> timestamp \<Rightarrow> real" where
  "calculate_budget_pr epoch date =
     (let years_elapsed = real_of_int (days_between date epoch) / 365.25;
          initial_budget = 73.9;
          annual_reduction = 0.008
      in initial_budget * ((1 - annual_reduction) powr years_elapsed))"

text \<open>Line 158: a comparison with a missing PR is false.\<close>

definition above_budget :: "real option \<Rightarrow> real \<Rightarrow> nat" where
  "above_budget pr budget = (case pr of None \<Rightarrow> 0 | Some v \<Rightarrow> if budget < v then 1 else 0)"

text \<open>Line 161, with its guard for a table of no rows.\<close>

definition percentage_above_of :: "nat \<Rightarrow> nat \<Rightarrow> real" where
  "percentage_above_of points n_rows =
     (if 0 < n_rows then real points / real n_rows * 100 else 0)"

text \<open>Lines 164 to 169: \<^verbatim>\<open>df_plot['PR'].tail(n).mean()\<close> and \<^verbatim>\<open>df_plot['PR'].mean()\<close>.\<close>

definition last_avg :: "nat \<Rightarrow> timestamp entry list \<Rightarrow> real option" where
  "last_avg n df_plot = pd_mean (tail n (map PR df_plot))"

definition lifetime_avg_of :: "timestamp entry list \<Rightarrow> real option" where
  "lifetime_avg_of df_plot = pd_mean (map PR df_plot)"



text \<open>
  What \<^verbatim>\<open>generate_graph\<close> computes before it draws (lines 107 to 169);
  \<open>epoch_timestamp\<close> is the parameter of \<open>budget_start_date\<close>.
\<close>

record graph_stats =
  PR_MA_30 :: "real option list"
  color :: "string list"
  first_date :: "timestamp option"
  last_date :: "timestamp option"
  epoch :: timestamp
  Budget_PR :: "real list"
  Above_Budget :: "nat list"
  points_above_budget :: nat
  total_points :: nat
  percentage_above :: real
  last_7_avg :: "real option"
  last_30_avg :: "real option"
  last_60_avg :: "real option"
  last_90_avg :: "real option"
  last_365_avg :: "real option"
  lifetime_avg :: "real option"

definition generate_graph ::
  "(int \<Rightarrow> error + timestamp) \<Rightarrow> timestamp entry list \<Rightarrow> timestamp option \<Rightarrow>
   timestamp option \<Rightarrow> error + graph_stats" where
  "generate_graph epoch_timestamp df start_date end_date =
     (let df_plot = date_filter df start_date end_date;
          ma = rolling_mean 30 1 (map PR df_plot);
          colors = map (\<lambda>r. get_ghi_color (GHI r)) df_plot;
          first_d = series_min (map Date df_plot);
          last_d = series_max (map Date df_plot)
      in case budget_start_date epoch_timestamp first_d of
           Inl e \<Rightarrow> Inl e
         | Inr start \<Rightarrow>
             (let budget = map (\<lambda>r. calculate_budget_pr start (Date r)) df_plot;
                  above = map2 above_budget (map PR df_plot) budget;
                  points = sum_list above;
                  n_rows = length df_plot
              in Inr \<lparr>PR_MA_30 = ma, color = colors, first_date = first_d, last_date = last_d,
                      epoch = start, Budget_PR = budget, Above_Budget = above,
                      points_above_budget = points, total_points = n_rows,
                      percentage_above = percentage_above_of points n_rows,
                      last_7_avg = last_avg 7 df_plot,
                      last_30_avg = last_avg 30 df_plot,
                      last_60_avg = last_avg 60 df_plot,
                      last_90_avg = last_avg 90 df_plot,
                      last_365_avg = last_avg 365 df_plot,
                      lifetime_avg = lifetime_avg_of df_plot\<rparr>))"

section \<open>Calendar arithmetic\<close>

lemma div_pred:
  fixes y n :: int
  assumes n: "0 < n"
  shows "(y - 1) div n = (if y mod n = 0 then y div n - 1 else y div n)"
proof (cases "y mod n = 0")
  case True
  then have "y = n * (y div n)"
    by (metis add.right_neutral mult_div_mod_eq)
  then have "y - 1 = n * (y div n - 1) + (n - 1)"
    by (simp add: algebra_simps)
  then have "(y - 1) div n = y div n - 1"
    using n by (intro int_div_pos_eq[where r = "n - 1"]) simp_all
  with True show ?thesis by simp
next
  case False
  have m: "0 \<le> y mod n" "y mod n < n" using n by simp_all
  have "y - 1 = n * (y div n) + (y mod n - 1)"
    by (simp add: algebra_simps)
  then have "(y - 1) div n = y div n"
    using n m False by (intro int_div_pos_eq[where r = "y mod n - 1"]) simp_all
  with False show ?thesis by simp
qed

lemma days_before_year_step:
  "days_before_year (y + 1) - days_before_year y =
     365 + (if y mod 4 = 0 then 1 else 0) - (if y mod 100 = 0 then 1 else 0)
         + (if y mod 400 = 0 then 1 else 0)"
  unfolding days_before_year_def Let_def
  by (simp only: add_diff_cancel_right' div_pred[of 4 y] div_pred[of 100 y] div_pred[of 400 y]
        zero_less_numeral if_True split: if_splits) (simp add: algebra_simps)

lemma mod_of_multiple:
  fixes y :: int
  assumes "m dvd n" and "y mod n = 0"
  shows "y mod m = 0"
proof -
  from assms(2) have "n dvd y" by (simp add: mod_eq_0_iff_dvd)
  with assms(1) have "m dvd y" by (rule dvd_trans)
  then show ?thesis by simp
qed

lemma days_before_year_leap:
  "days_before_year (y + 1) - days_before_year y = (if is_leap y then 366 else 365)"
proof -
  consider (a) "y mod 400 = 0" | (b) "y mod 400 \<noteq> 0" "y mod 100 = 0"
    | (c) "y mod 100 \<noteq> 0" "y mod 4 = 0" | (d) "y mod 4 \<noteq> 0"
    by blast
  then show ?thesis
  proof cases
    case a
    have "y mod 100 = 0" by (rule mod_of_multiple[OF _ a]) simp
    moreover have "y mod 4 = 0" by (rule mod_of_multiple[OF _ a]) simp
    ultimately show ?thesis using a by (simp add: days_before_year_step is_leap_def)
  next
    case b
    have "y mod 4 = 0" by (rule mod_of_multiple[OF _ b(2)]) simp
    then show ?thesis using b by (simp add: days_before_year_step is_leap_def)
  next
    case c
    have "y mod 400 \<noteq> 0" using mod_of_multiple[of 100 400 y] c(1) by fastforce
    then show ?thesis using c by (simp add: days_before_year_step is_leap_def)
  next
    case d
    have "y mod 100 \<noteq> 0" using mod_of_multiple[of 4 100 y] d by fastforce
    moreover have "y mod 400 \<noteq> 0" using mod_of_multiple[of 4 400 y] d by fastforce
    ultimately show ?thesis using d by (simp add: days_before_year_step is_leap_def)
  qed
qed

lemma days_before_july: "days_before_month y 7 = 181 + (if is_leap y then 1 else 0)"
  by (simp add: days_before_month_def)

lemma july_to_july:
  "days_between (y + 1, 7, 1) (y, 7, 1) = (if is_leap (y + 1) then 366 else 365)"
proof -
  have "days_between (y + 1, 7, 1) (y, 7, 1) =
      (days_before_year (y + 1) - days_before_year y)
        + (days_before_month (y + 1) 7 - days_before_month y 7)"
    by (simp add: days_between_def toordinal_def year_def month_def day_def)
  then show ?thesis
    by (simp add: days_before_year_leap days_before_july)
qed

text \<open>
  On valid dates the order of the triples is the order of the day numbers, so the
  lexicographic comparison is the chronological one.
\<close>

lemma month_cases:
  fixes m :: int
  assumes "1 \<le> m" and "m \<le> 12"
  obtains "m = 1" | "m = 2" | "m = 3" | "m = 4" | "m = 5" | "m = 6"
    | "m = 7" | "m = 8" | "m = 9" | "m = 10" | "m = 11" | "m = 12"
proof -
  have "m = 1 \<or> m = 2 \<or> m = 3 \<or> m = 4 \<or> m = 5 \<or> m = 6
      \<or> m = 7 \<or> m = 8 \<or> m = 9 \<or> m = 10 \<or> m = 11 \<or> m = 12"
    using assms by arith
  then show thesis
    using that by blast
qed

lemma month_step:
  assumes "1 \<le> m" and "m < 12"
  shows "days_before_month y (m + 1) = days_before_month y m + days_in_month y m"
proof -
  from assms have "1 \<le> m" "m \<le> 12" by simp_all
  then show ?thesis
    using assms(2)
    by (cases m rule: month_cases) (simp_all add: days_before_month_def days_in_month_def)
qed

lemma days_in_month_pos:
  assumes "1 \<le> m" and "m \<le> 12"
  shows "0 < days_in_month y m"
  using assms
  by (cases m rule: month_cases) (simp_all add: days_in_month_def)

lemma year_end: "days_before_month y 12 + days_in_month y 12 = (if is_leap y then 366 else 365)"
  by (simp add: days_before_month_def days_in_month_def)

lemma month_mono_aux:
  assumes "1 \<le> m" and "m + 1 + int k \<le> 12"
  shows "days_before_month y m + days_in_month y m \<le> days_before_month y (m + 1 + int k)"
  using assms(2)
proof (induction k)
  case 0
  then show ?case
    using month_step[of m y] assms(1) by simp
next
  case (Suc k)
  have s: "days_before_month y (m + 1 + int k + 1) =
      days_before_month y (m + 1 + int k) + days_in_month y (m + 1 + int k)"
    by (rule month_step) (use Suc.prems assms(1) in simp_all)
  have "0 < days_in_month y (m + 1 + int k)"
    by (rule days_in_month_pos) (use Suc.prems assms(1) in simp_all)
  moreover have "days_before_month y m + days_in_month y m \<le> days_before_month y (m + 1 + int k)"
    by (rule Suc.IH) (use Suc.prems in simp)
  moreover have "m + 1 + int (Suc k) = m + 1 + int k + 1"
    by simp
  ultimately show ?case
    using s by simp
qed

lemma month_mono:
  assumes "1 \<le> m" and "m < m'" and "m' \<le> 12"
  shows "days_before_month y m + days_in_month y m \<le> days_before_month y m'"
proof -
  have "m' = m + 1 + int (nat (m' - m - 1))"
    using assms(2) by simp
  then show ?thesis
    using month_mono_aux[of m "nat (m' - m - 1)" y] assms by simp
qed

lemma year_mono_aux:
  "days_before_year y + (if is_leap y then 366 else 365) \<le> days_before_year (y + 1 + int k)"
proof (induction k)
  case 0
  show ?case
    using days_before_year_leap[of y] by simp
next
  case (Suc k)
  have "days_before_year (y + 1 + int k + 1) - days_before_year (y + 1 + int k) =
      (if is_leap (y + 1 + int k) then 366 else 365)"
    by (rule days_before_year_leap)
  then have "days_before_year (y + 1 + int k) \<le> days_before_year (y + 1 + int k + 1)"
    by (simp split: if_splits)
  moreover have "y + 1 + int (Suc k) = y + 1 + int k + 1"
    by simp
  ultimately show ?case
    using Suc.IH by simp
qed

lemma year_mono:
  assumes "y < y'"
  shows "days_before_year y + (if is_leap y then 366 else 365) \<le> days_before_year y'"
proof -
  have "y' = y + 1 + int (nat (y' - y - 1))"
    using assms by simp
  then show ?thesis
    using year_mono_aux[of y "nat (y' - y - 1)"] by simp
qed

lemma day_of_year_bounds:
  assumes "valid_date ts"
  shows "1 \<le> days_before_month (year ts) (month ts) + day ts"
    and "days_before_month (year ts) (month ts) + day ts \<le> (if is_leap (year ts) then 366 else 365)"
proof -
  from assms have m: "1 \<le> month ts" "month ts \<le> 12"
    and d: "1 \<le> day ts" "day ts \<le> days_in_month (year ts) (month ts)"
    by (simp_all add: valid_date_def)
  have "0 \<le> days_before_month (year ts) (month ts)"
    using m by (cases "month ts" rule: month_cases) (simp_all add: days_before_month_def)
  with d(1) show "1 \<le> days_before_month (year ts) (month ts) + day ts"
    by simp
  have "days_before_month (year ts) (month ts) + days_in_month (year ts) (month ts)
      \<le> days_before_month (year ts) 12 + days_in_month (year ts) 12"
  proof (cases "month ts = 12")
    case True
    then show ?thesis by simp
  next
    case False
    then have "month ts < 12" using m(2) by simp
    then have "days_before_month (year ts) (month ts) + days_in_month (year ts) (month ts)
        \<le> days_before_month (year ts) 12"
      using month_mono[of "month ts" 12 "year ts"] m(1) by simp
    moreover have "0 < days_in_month (year ts) 12"
      by (rule days_in_month_pos) simp_all
    ultimately show ?thesis by simp
  qed
  with d(2) show "days_before_month (year ts) (month ts) + day ts
      \<le> (if is_leap (year ts) then 366 else 365)"
    by (simp only: year_end)
qed

lemma toordinal_strict_mono:
  assumes a: "valid_date a" and b: "valid_date b" and lt: "a < b"
  shows "toordinal a < toordinal b"
proof -
  obtain ya ma da where A: "a = (ya, ma, da)" by (cases a)
  obtain yb mb db where B: "b = (yb, mb, db)" by (cases b)
  from lt have "ya < yb \<or> (ya = yb \<and> ma < mb) \<or> (ya = yb \<and> ma = mb \<and> da < db)"
    unfolding A B by auto
  then consider (y) "ya < yb" | (m) "ya = yb" "ma < mb" | (d) "ya = yb" "ma = mb" "da < db"
    by blast
  then show ?thesis
  proof cases
    case y
    have "toordinal a \<le> days_before_year ya + (if is_leap ya then 366 else 365)"
      using day_of_year_bounds(2)[OF a] by (simp add: toordinal_def A year_def month_def day_def)
    also have "\<dots> \<le> days_before_year yb"
      by (rule year_mono[OF y])
    also have "\<dots> < toordinal b"
      using day_of_year_bounds(1)[OF b] by (simp add: toordinal_def B year_def month_def day_def)
    finally show ?thesis .
  next
    case m
    from a b have va: "1 \<le> ma" "da \<le> days_in_month ya ma" and vb: "mb \<le> 12" "1 \<le> db"
      by (simp_all add: valid_date_def A B year_def month_def day_def)
    have "days_before_month ya ma + days_in_month ya ma \<le> days_before_month ya mb"
      by (rule month_mono[OF va(1) m(2) vb(1)])
    with va(2) vb(2) m(1) show ?thesis
      by (simp add: toordinal_def A B year_def month_def day_def)
  next
    case d
    then show ?thesis
      by (simp add: toordinal_def A B year_def month_def day_def)
  qed
qed

lemma toordinal_mono:
  assumes "valid_date a" and "valid_date b" and "a \<le> b"
  shows "toordinal a \<le> toordinal b"
proof (cases "a = b")
  case True
  then show ?thesis by simp
next
  case False
  with assms(3) have "a < b" by simp
  then show ?thesis
    using toordinal_strict_mono[OF assms(1,2)] by simp
qed

lemma valid_july_1: "valid_date (y, 7, 1)"
  by (simp add: valid_date_def days_in_month_def month_def day_def)

section \<open>The budget curve\<close>

lemma budget_at_epoch: "calculate_budget_pr e e = 73.9"
  by (simp add: calculate_budget_pr_def days_between_def)

lemma budget_formula:
  "calculate_budget_pr e d = 73.9 * (1 - 0.008) powr (real_of_int (days_between d e) / 365.25)"
  by (simp add: calculate_budget_pr_def)

lemma budget_at_most_initial:
  assumes "0 \<le> days_between d ep"
  shows "calculate_budget_pr ep d \<le> 73.9"
proof -
  have "(0.992::real) powr (real_of_int (days_between d ep) / 365.25) \<le> 1"
    by (rule powr_le1) (use assms in simp_all)
  then show ?thesis
    by (simp add: budget_formula)
qed

lemma decay_less:
  assumes "1 < x"
  shows "(0.992::real) powr x < 0.992"
proof -
  have "(0.992::real) powr x < 0.992 powr 1"
    by (rule powr_less_mono') (use assms in simp_all)
  also have "(0.992::real) powr 1 = 0.992"
    by simp
  finally show ?thesis .
qed

lemma decay_greater:
  assumes "x < 1"
  shows "(0.992::real) < 0.992 powr x"
proof -
  have "(0.992::real) powr 1 < 0.992 powr x"
    by (rule powr_less_mono') (use assms in simp_all)
  moreover have "(0.992::real) powr 1 = 0.992"
    by simp
  ultimately show ?thesis by (simp only:)
qed

lemma budget_leap:
  assumes "days_between d e = 366"
  shows "calculate_budget_pr e d < 73.9 * 0.992"
proof -
  have "(0.992::real) powr (366 / 365.25) < 0.992"
    by (rule decay_less) simp
  then have "73.9 * (0.992::real) powr (366 / 365.25) < 73.9 * 0.992"
    by (simp only: mult_less_cancel_left_pos[of "73.9::real"])
  moreover have "calculate_budget_pr e d = 73.9 * (0.992::real) powr (366 / 365.25)"
    by (simp add: budget_formula assms)
  ultimately show ?thesis by (simp only:)
qed

lemma budget_common:
  assumes "days_between d e = 365"
  shows "73.9 * 0.992 < calculate_budget_pr e d"
proof -
  have "(0.992::real) < 0.992 powr (365 / 365.25)"
    by (rule decay_greater) simp
  then have "73.9 * (0.992::real) < 73.9 * 0.992 powr (365 / 365.25)"
    by (simp only: mult_less_cancel_left_pos[of "73.9::real"])
  moreover have "calculate_budget_pr e d = 73.9 * (0.992::real) powr (365 / 365.25)"
    by (simp add: budget_formula assms)
  ultimately show ?thesis by (simp only:)
qed


lemma d2223: "days_between (2023, 7, 1) (2022, 7, 1) = 365"
  using july_to_july[of 2022] by (simp add: is_leap_def)

lemma d2324: "days_between (2024, 7, 1) (2023, 7, 1) = 366"
  using july_to_july[of 2023] by (simp add: is_leap_def)

text \<open>
  Claim C1, as the code has it. At the epoch the budget is 73.9, and at every date it is
  \<open>73.9 * (1 - 0.008) powr (days / 365.25)\<close>. From July 1 of a year to July 1 of the next
  there are 365 or 366 days, never 365.25, so one year after the epoch the budget is not
  \<open>73.9 * 0.992\<close>: it is below it when the year that ends has 366 days and above it when
  it has 365.
\<close>

theorem budget_epoch_and_one_year:
  "calculate_budget_pr e e = 73.9 \<and>
   calculate_budget_pr e d = 73.9 * (1 - 0.008) powr (real_of_int (days_between d e) / 365.25) \<and>
   days_between (y + 1, 7, 1) (y, 7, 1) = (if is_leap (y + 1) then 366 else 365) \<and>
   (if is_leap (y + 1)
    then calculate_budget_pr (y, 7, 1) (y + 1, 7, 1) < 73.9 * 0.992
    else 73.9 * 0.992 < calculate_budget_pr (y, 7, 1) (y + 1, 7, 1))"
proof (intro conjI)
  show "calculate_budget_pr e e = 73.9"
    by (rule budget_at_epoch)
  show "calculate_budget_pr e d =
      73.9 * (1 - 0.008) powr (real_of_int (days_between d e) / 365.25)"
    by (rule budget_formula)
  show "days_between (y + 1, 7, 1) (y, 7, 1) = (if is_leap (y + 1) then 366 else 365)"
    by (rule july_to_july)
  show "if is_leap (y + 1)
    then calculate_budget_pr (y, 7, 1) (y + 1, 7, 1) < 73.9 * 0.992
    else 73.9 * 0.992 < calculate_budget_pr (y, 7, 1) (y + 1, 7, 1)"
  proof (cases "is_leap (y + 1)")
    case True
    then have "days_between (y + 1, 7, 1) (y, 7, 1) = 366"
      by (simp add: july_to_july)
    then have "calculate_budget_pr (y, 7, 1) (y + 1, 7, 1) < 73.9 * 0.992"
      by (rule budget_leap)
    with True show ?thesis by (simp only: if_True)
  next
    case False
    then have "days_between (y + 1, 7, 1) (y, 7, 1) = 365"
      by (simp add: july_to_july)
    then have "73.9 * 0.992 < calculate_budget_pr (y, 7, 1) (y + 1, 7, 1)"
      by (rule budget_common)
    with False show ?thesis by (simp only: if_False)
  qed
qed

text \<open>The epoch July 1, 2023: the year to July 1, 2024 has 366 days.\<close>

theorem budget_epoch_and_one_year_witness:
  "calculate_budget_pr (2023, 7, 1) (2023, 7, 1) = 73.9 \<and>
   days_between (2024, 7, 1) (2023, 7, 1) = 366 \<and>
   calculate_budget_pr (2023, 7, 1) (2024, 7, 1) < 73.9 * 0.992"
proof -
  have l: "is_leap (2023 + 1)"
    by (simp add: is_leap_def)
  note t = budget_epoch_and_one_year[of "(2023, 7, 1)" "(2024, 7, 1)" 2023]
  have "calculate_budget_pr (2023, 7, 1) (2023, 7, 1) = 73.9"
    using t by (simp only:)
  moreover have "days_between (2023 + 1, 7, 1) (2023, 7, 1) = 366"
    using t l by (simp only: if_True)
  moreover have "calculate_budget_pr (2023, 7, 1) (2023 + 1, 7, 1) < 73.9 * 0.992"
    using t l by (simp only: if_True)
  ultimately show ?thesis by simp
qed

text \<open>
  Claim C1 as the specification states it fails: one year after the epoch the budget
  differs from \<open>73.9 * 0.992\<close>, after a year of 365 days and after one of 366.
\<close>

theorem budget_one_year_counterexample:
  "calculate_budget_pr (2022, 7, 1) (2023, 7, 1) \<noteq> 73.9 * 0.992 \<and>
   calculate_budget_pr (2023, 7, 1) (2024, 7, 1) \<noteq> 73.9 * 0.992"
proof -
  have "73.9 * 0.992 < calculate_budget_pr (2022, 7, 1) (2023, 7, 1)"
    by (rule budget_common[OF d2223])
  moreover have "calculate_budget_pr (2023, 7, 1) (2024, 7, 1) < 73.9 * 0.992"
    by (rule budget_leap[OF d2324])
  ultimately show ?thesis by simp
qed

section \<open>The colour of a point\<close>

lemma color_missing: "get_ghi_color None = ''#808080''"
  by (simp add: get_ghi_color_def)

lemma color_not_missing: "get_ghi_color (Some g) \<noteq> ''#808080''"
  by (simp add: get_ghi_color_def)

lemma color_below_2: "(get_ghi_color (Some g) = ''#00008B'') = (g < 2)"
  by (simp add: get_ghi_color_def)

lemma color_2_4: "(get_ghi_color (Some g) = ''#4169E1'') = (2 \<le> g \<and> g < 4)"
  by (simp add: get_ghi_color_def)

lemma color_4_6: "(get_ghi_color (Some g) = ''#FFA500'') = (4 \<le> g \<and> g < 6)"
  by (simp add: get_ghi_color_def)

lemma color_6_up: "(get_ghi_color (Some g) = ''#8B4513'') = (6 \<le> g)"
  by (simp add: get_ghi_color_def)

lemma band_examples:
  "map_of legend_elements (get_ghi_color (Some 1.9)) = Some ''< 2''"
  "map_of legend_elements (get_ghi_color (Some 2.0)) = Some ''2~4''"
  "map_of legend_elements (get_ghi_color (Some 3.999)) = Some ''2~4''"
  "map_of legend_elements (get_ghi_color (Some 6.0)) = Some ''> 6''"
  "map_of legend_elements (get_ghi_color None) = None"
  by (simp_all add: get_ghi_color_def legend_elements_def)

text \<open>
  Claim C7. A missing GHI has the grey of no band; a GHI value has the colour of exactly
  one of the four bands of the legend, below 2, from 2 to below 4, from 4 to below 6, and
  6 or above; 1.9 is in the band labelled \<^verbatim>\<open>< 2\<close>, 2.0 and 3.999 in \<^verbatim>\<open>2~4\<close>, 6.0 in
  \<^verbatim>\<open>> 6\<close>.
\<close>

theorem ghi_color_bands:
  "get_ghi_color None = ''#808080'' \<and>
   get_ghi_color (Some g) \<noteq> ''#808080'' \<and>
   (get_ghi_color (Some g) = ''#00008B'') = (g < 2) \<and>
   (get_ghi_color (Some g) = ''#4169E1'') = (2 \<le> g \<and> g < 4) \<and>
   (get_ghi_color (Some g) = ''#FFA500'') = (4 \<le> g \<and> g < 6) \<and>
   (get_ghi_color (Some g) = ''#8B4513'') = (6 \<le> g) \<and>
   map_of legend_elements (get_ghi_color (Some 1.9)) = Some ''< 2'' \<and>
   map_of legend_elements (get_ghi_color (Some 2.0)) = Some ''2~4'' \<and>
   map_of legend_elements (get_ghi_color (Some 3.999)) = Some ''2~4'' \<and>
   map_of legend_elements (get_ghi_color (Some 6.0)) = Some ''> 6'' \<and>
   map_of legend_elements (get_ghi_color None) = None"
  by (intro conjI color_missing color_not_missing color_below_2 color_2_4 color_4_6
      color_6_up band_examples)

text \<open>The values 5 and 1.\<close>

theorem ghi_color_bands_witness:
  "get_ghi_color (Some 5) = ''#FFA500'' \<and> get_ghi_color (Some 1) \<noteq> ''#808080''"
proof -
  have "(get_ghi_color (Some 5) = ''#FFA500'') = (4 \<le> (5::real) \<and> (5::real) < 6)"
    using ghi_color_bands[of 5] by blast
  moreover have "get_ghi_color (Some 1) \<noteq> ''#808080''"
    using ghi_color_bands[of 1] by blast
  ultimately show ?thesis by simp
qed

section \<open>The dictionary of the merge\<close>

lemma map_of_pr_row:
  "map_of (pr_row d row) k =
     (if k = fst row then Some ((entry_of d k)\<lparr>PR := snd row\<rparr>) else map_of d k)"
proof (cases "fst row \<in> fst ` set d")
  case True
  then obtain r where "map_of d (fst row) = Some r"
    by (meson domD dom_map_of_conv_image_fst domIff not_Some_eq map_of_eq_None_iff)
  with True show ?thesis
    by (simp add: pr_row_def Let_def map_of_map_entry entry_of_def)
next
  case False
  then have "map_of d (fst row) = None"
    by (simp add: map_of_eq_None_iff)
  with False show ?thesis
    by (simp add: pr_row_def Let_def map_of_map_entry update_conv' entry_of_def new_entry_def)
qed

lemma keys_pr_row: "fst ` set (pr_row d row) = insert (fst row) (fst ` set d)"
  by (auto simp add: pr_row_def Let_def dom_map_entry dom_update)

lemma distinct_pr_row: "distinct (map fst d) \<Longrightarrow> distinct (map fst (pr_row d row))"
  by (simp add: pr_row_def Let_def distinct_map_entry distinct_update)

lemma map_of_ghi_row:
  "map_of (ghi_row d row) k =
     (if k = fst row then Some ((entry_of d k)\<lparr>GHI := snd row\<rparr>) else map_of d k)"
proof (cases "fst row \<in> fst ` set d")
  case True
  then obtain r where "map_of d (fst row) = Some r"
    by (meson domD dom_map_of_conv_image_fst domIff not_Some_eq map_of_eq_None_iff)
  with True show ?thesis
    by (simp add: ghi_row_def Let_def map_of_map_entry entry_of_def)
next
  case False
  then have "map_of d (fst row) = None"
    by (simp add: map_of_eq_None_iff)
  with False show ?thesis
    by (simp add: ghi_row_def Let_def map_of_map_entry update_conv' entry_of_def new_entry_def)
qed

lemma keys_ghi_row: "fst ` set (ghi_row d row) = insert (fst row) (fst ` set d)"
  by (auto simp add: ghi_row_def Let_def dom_map_entry dom_update)

lemma distinct_ghi_row: "distinct (map fst d) \<Longrightarrow> distinct (map fst (ghi_row d row))"
  by (simp add: ghi_row_def Let_def distinct_map_entry distinct_update)

lemma last_written_snoc:
  "last_written (ws @ [w]) k = (if k = fst w then snd w else last_written ws k)"
  by (cases w) (simp add: last_written_def)

lemma last_written_absent: "k \<notin> fst ` set ws \<Longrightarrow> last_written ws k = None"
proof -
  assume "k \<notin> fst ` set ws"
  then have "map_of (rev ws) k = None"
    by (simp add: map_of_eq_None_iff)
  then show ?thesis by (simp add: last_written_def)
qed

lemma entry_of_Nil: "entry_of [] k = new_entry k"
  by (simp add: entry_of_def)

lemma entry_of_pr_row:
  "entry_of (pr_row d row) k =
     (if k = fst row then (entry_of d k)\<lparr>PR := snd row\<rparr> else entry_of d k)"
  by (simp add: entry_of_def[of "pr_row d row"] map_of_pr_row) (simp add: entry_of_def)

lemma entry_of_ghi_row:
  "entry_of (ghi_row d row) k =
     (if k = fst row then (entry_of d k)\<lparr>GHI := snd row\<rparr> else entry_of d k)"
  by (simp add: entry_of_def[of "ghi_row d row"] map_of_ghi_row) (simp add: entry_of_def)

lemma entry_of_foldl_pr_row:
  "entry_of (foldl pr_row d ws) k =
     (if k \<in> fst ` set ws then (entry_of d k)\<lparr>PR := last_written ws k\<rparr> else entry_of d k)"
proof (induction ws arbitrary: k rule: rev_induct)
  case Nil
  show ?case by simp
next
  case (snoc w ws)
  show ?case
    by (simp add: entry_of_pr_row snoc.IH last_written_snoc)
qed

lemma entry_of_foldl_ghi_row:
  "entry_of (foldl ghi_row d ws) k =
     (if k \<in> fst ` set ws then (entry_of d k)\<lparr>GHI := last_written ws k\<rparr> else entry_of d k)"
proof (induction ws arbitrary: k rule: rev_induct)
  case Nil
  show ?case by simp
next
  case (snoc w ws)
  show ?case
    by (simp add: entry_of_ghi_row snoc.IH last_written_snoc)
qed

lemma keys_foldl_pr_row: "fst ` set (foldl pr_row d ws) = fst ` set d \<union> fst ` set ws"
  by (induction ws rule: rev_induct) (auto simp add: keys_pr_row)

lemma keys_foldl_ghi_row: "fst ` set (foldl ghi_row d ws) = fst ` set d \<union> fst ` set ws"
  by (induction ws rule: rev_induct) (auto simp add: keys_ghi_row)

lemma distinct_foldl_pr_row:
  "distinct (map fst d) \<Longrightarrow> distinct (map fst (foldl pr_row d ws))"
  by (induction ws rule: rev_induct) (simp_all add: distinct_pr_row)

lemma distinct_foldl_ghi_row:
  "distinct (map fst d) \<Longrightarrow> distinct (map fst (foldl ghi_row d ws))"
  by (induction ws rule: rev_induct) (simp_all add: distinct_ghi_row)

lemma foldl_pr_file: "foldl (pr_file rd) d fs = foldl pr_row d (writes rd fs)"
  by (induction fs arbitrary: d) (simp_all add: writes_def pr_file_def split: option.split)

lemma foldl_ghi_file: "foldl (ghi_file rd) d fs = foldl ghi_row d (writes rd fs)"
  by (induction fs arbitrary: d) (simp_all add: writes_def ghi_file_def split: option.split)

lemma fold_files_rows:
  "fold_files rp rg pf gf =
     foldl ghi_row (foldl pr_row [] (writes rp (sort pf))) (writes rg (sort gf))"
  by (simp add: fold_files_def Let_def foldl_pr_file foldl_ghi_file)

lemma keys_fold_files: "fst ` set (fold_files rp rg pf gf) = merged_keys rp rg pf gf"
  by (simp add: fold_files_rows keys_foldl_ghi_row keys_foldl_pr_row merged_keys_def)

lemma distinct_fold_files: "distinct (map fst (fold_files rp rg pf gf))"
  by (simp add: fold_files_rows distinct_foldl_ghi_row distinct_foldl_pr_row)

lemma entry_of_fold_files:
  "entry_of (fold_files rp rg pf gf) k =
     \<lparr>Date = k, PR = last_written (writes rp (sort pf)) k,
      GHI = last_written (writes rg (sort gf)) k\<rparr>"
proof -
  let ?pw = "writes rp (sort pf)" and ?gw = "writes rg (sort gf)"
  note e0 = entry_of_Nil
  have p: "entry_of (foldl pr_row [] ?pw) k = \<lparr>Date = k, PR = last_written ?pw k, GHI = None\<rparr>"
    by (simp add: entry_of_foldl_pr_row e0 new_entry_def last_written_absent)
  show ?thesis
    by (simp add: fold_files_rows entry_of_foldl_ghi_row p last_written_absent)
qed

lemma map_of_fold_files:
  "map_of (fold_files rp rg pf gf) k =
     (if k \<in> merged_keys rp rg pf gf
      then Some \<lparr>Date = k, PR = last_written (writes rp (sort pf)) k,
                 GHI = last_written (writes rg (sort gf)) k\<rparr>
      else None)"
proof (cases "k \<in> merged_keys rp rg pf gf")
  case True
  then have "k \<in> fst ` set (fold_files rp rg pf gf)"
    by (simp add: keys_fold_files)
  then obtain r where r: "map_of (fold_files rp rg pf gf) k = Some r"
    by (metis map_of_eq_None_iff not_Some_eq)
  then have "entry_of (fold_files rp rg pf gf) k = r"
    by (simp add: entry_of_def)
  with r True show ?thesis
    by (simp add: entry_of_fold_files)
next
  case False
  then have "k \<notin> fst ` set (fold_files rp rg pf gf)"
    by (simp add: keys_fold_files)
  then have "map_of (fold_files rp rg pf gf) k = None"
    by (simp add: map_of_eq_None_iff)
  with False show ?thesis by simp
qed

lemma map_of_foldl_pr_row:
  "map_of (foldl pr_row d ws) k =
     (if k \<in> fst ` set ws then Some ((entry_of d k)\<lparr>PR := last_written ws k\<rparr>)
      else map_of d k)"
proof (induction ws arbitrary: k rule: rev_induct)
  case Nil
  show ?case by simp
next
  case (snoc w ws)
  show ?case
    by (simp add: map_of_pr_row entry_of_foldl_pr_row snoc.IH last_written_snoc)
qed

lemma map_of_foldl_ghi_row:
  "map_of (foldl ghi_row d ws) k =
     (if k \<in> fst ` set ws then Some ((entry_of d k)\<lparr>GHI := last_written ws k\<rparr>)
      else map_of d k)"
proof (induction ws arbitrary: k rule: rev_induct)
  case Nil
  show ?case by simp
next
  case (snoc w ws)
  show ?case
    by (simp add: map_of_ghi_row entry_of_foldl_ghi_row snoc.IH last_written_snoc)
qed

section \<open>Each pass writes its own field\<close>

lemma ghi_file_keeps:
  assumes "map_of d k = Some r"
  shows "\<exists>r'. map_of (ghi_file rd d f) k = Some r' \<and> PR r' = PR r \<and> Date r' = Date r"
proof (cases "rd f")
  case None
  with assms show ?thesis by (simp add: ghi_file_def)
next
  case (Some ws)
  have "entry_of d k = r" using assms by (simp add: entry_of_def)
  with assms Some show ?thesis
    by (simp add: ghi_file_def map_of_foldl_ghi_row)
qed

lemma pr_file_keeps:
  assumes "map_of d k = Some r"
  shows "\<exists>r'. map_of (pr_file rd d f) k = Some r' \<and> GHI r' = GHI r \<and> Date r' = Date r"
proof (cases "rd f")
  case None
  with assms show ?thesis by (simp add: pr_file_def)
next
  case (Some ws)
  have "entry_of d k = r" using assms by (simp add: entry_of_def)
  with assms Some show ?thesis
    by (simp add: pr_file_def map_of_foldl_pr_row)
qed

lemma ghi_file_new:
  assumes "map_of d k = None" and "map_of (ghi_file rd d f) k = Some r'"
  shows "PR r' = None"
proof (cases "rd f")
  case None
  with assms show ?thesis by (simp add: ghi_file_def)
next
  case (Some ws)
  have "entry_of d k = new_entry k" using assms(1) by (simp add: entry_of_def)
  with assms Some show ?thesis
    by (auto simp add: ghi_file_def map_of_foldl_ghi_row new_entry_def split: if_splits)
qed

lemma pr_file_new:
  assumes "map_of d k = None" and "map_of (pr_file rd d f) k = Some r'"
  shows "GHI r' = None"
proof (cases "rd f")
  case None
  with assms show ?thesis by (simp add: pr_file_def)
next
  case (Some ws)
  have "entry_of d k = new_entry k" using assms(1) by (simp add: entry_of_def)
  with assms Some show ?thesis
    by (auto simp add: pr_file_def map_of_foldl_pr_row new_entry_def split: if_splits)
qed

text \<open>
  Claim C10. Processing a GHI file leaves the PR field (and the \<^verbatim>\<open>Date\<close> field) of every
  record of the dictionary as it was, and processing a PR file leaves the GHI field as it
  was; a record that a GHI file creates has no PR, and one that a PR file creates has no
  GHI.
\<close>

theorem pass_writes_own_field:
  "(map_of d k = Some r \<longrightarrow>
      (\<exists>r'. map_of (ghi_file rd d f) k = Some r' \<and> PR r' = PR r \<and> Date r' = Date r) \<and>
      (\<exists>r'. map_of (pr_file rd d f) k = Some r' \<and> GHI r' = GHI r \<and> Date r' = Date r)) \<and>
   (map_of d k = None \<longrightarrow>
      (\<forall>r'. map_of (ghi_file rd d f) k = Some r' \<longrightarrow> PR r' = None) \<and>
      (\<forall>r'. map_of (pr_file rd d f) k = Some r' \<longrightarrow> GHI r' = None))"
  using ghi_file_keeps[of d k r rd f] pr_file_keeps[of d k r rd f]
    ghi_file_new[of d k rd f] pr_file_new[of d k rd f]
  by blast

text \<open>The GHI files of the small data set, on a dictionary that holds January 1 with a PR.\<close>

theorem pass_writes_own_field_witness:
  "map_of [(''2024-01-01'', \<lparr>Date = ''2024-01-01'', PR = Some 80, GHI = None\<rparr>)] ''2024-01-01''
     = Some \<lparr>Date = ''2024-01-01'', PR = Some 80, GHI = None\<rparr> \<and>
   (\<exists>r'. map_of (ghi_file example_read_ghi
            [(''2024-01-01'', \<lparr>Date = ''2024-01-01'', PR = Some 80, GHI = None\<rparr>)] ''GHI/g.csv'')
          ''2024-01-01'' = Some r' \<and> PR r' = Some 80 \<and> GHI r' = Some 5.2) \<and>
   map_of [(''2024-01-01'', \<lparr>Date = ''2024-01-01'', PR = Some 80, GHI = None\<rparr>)] ''2024-1-1''
     = None \<and>
   (\<exists>r'. map_of (ghi_file example_read_ghi
            [(''2024-01-01'', \<lparr>Date = ''2024-01-01'', PR = Some 80, GHI = None\<rparr>)] ''GHI/h.csv'')
          ''2024-1-1'' = Some r' \<and> PR r' = None)"
proof -
  let ?d = "[(''2024-01-01'', \<lparr>Date = ''2024-01-01'', PR = Some (80::real), GHI = None\<rparr>)]"
  have a: "map_of ?d ''2024-01-01'' = Some \<lparr>Date = ''2024-01-01'', PR = Some 80, GHI = None\<rparr>"
    by simp
  have b: "map_of ?d ''2024-1-1'' = None"
    by simp
  have g: "map_of (ghi_file example_read_ghi ?d ''GHI/g.csv'') ''2024-01-01''
      = Some \<lparr>Date = ''2024-01-01'', PR = Some 80, GHI = Some 5.2\<rparr>"
    by (simp add: ghi_file_def example_read_ghi_def ghi_row_def Let_def)
  have h: "map_of (ghi_file example_read_ghi ?d ''GHI/h.csv'') ''2024-1-1''
      = Some \<lparr>Date = ''2024-1-1'', PR = None, GHI = Some 3.1\<rparr>"
    by (simp add: ghi_file_def example_read_ghi_def ghi_row_def Let_def)
  let ?r = "\<lparr>Date = ''2024-01-01'', PR = Some (80::real), GHI = None\<rparr>"
  note t1 = pass_writes_own_field[of ?d "''2024-01-01''" ?r example_read_ghi "''GHI/g.csv''"]
  from t1 a obtain r1 where
    r1: "map_of (ghi_file example_read_ghi ?d ''GHI/g.csv'') ''2024-01-01'' = Some r1"
      "PR r1 = PR ?r"
    by blast
  from r1 g have 1: "\<exists>r'. map_of (ghi_file example_read_ghi ?d ''GHI/g.csv'') ''2024-01-01'' = Some r'
      \<and> PR r' = Some 80 \<and> GHI r' = Some 5.2"
    by auto
  note t2 = pass_writes_own_field[of ?d "''2024-1-1''" ?r example_read_ghi "''GHI/h.csv''"]
  from t2 b h
  have 2: "\<exists>r'. map_of (ghi_file example_read_ghi ?d ''GHI/h.csv'') ''2024-1-1'' = Some r'
      \<and> PR r' = None"
    by blast
  from a b 1 2 show ?thesis by blast
qed

section \<open>The merged table\<close>

lemma entry_in_fold_files:
  assumes "p \<in> set (fold_files rp rg pf gf)"
  shows "snd p = \<lparr>Date = fst p, PR = last_written (writes rp (sort pf)) (fst p),
                    GHI = last_written (writes rg (sort gf)) (fst p)\<rparr>"
proof -
  have "(fst p, snd p) \<in> set (fold_files rp rg pf gf)"
    using assms by simp
  then have "map_of (fold_files rp rg pf gf) (fst p) = Some (snd p)"
    by (rule map_of_is_SomeI[OF distinct_fold_files])
  then show ?thesis
    by (simp add: map_of_fold_files split: if_splits)
qed

lemma Date_snd:
  assumes "p \<in> set (fold_files rp rg pf gf)"
  shows "Date (snd p) = fst p"
  by (simp add: entry_in_fold_files[OF assms])

lemma Date_fold_files: "map Date (map snd (fold_files rp rg pf gf)) = map fst (fold_files rp rg pf gf)"
  by (simp add: Date_snd)

lemma filter_key:
  assumes "distinct (map fst d)" and "map_of d k = Some e"
  shows "filter (\<lambda>p. fst p = k) d = [(k, e)]"
  using assms
proof (induction d)
  case Nil
  then show ?case by simp
next
  case (Cons p d)
  show ?case
  proof (cases "fst p = k")
    case True
    then have "k \<notin> fst ` set d"
      using Cons.prems(1) by auto
    then have "filter (\<lambda>p. fst p = k) d = []"
      by (auto simp add: filter_empty_conv)
    moreover have "p = (k, e)"
      using True Cons.prems(2) by (cases p) simp
    ultimately show ?thesis by simp
  next
    case False
    then have "map_of d k = Some e"
      using Cons.prems(2) by (cases p) (simp split: if_splits)
    with False Cons show ?thesis by simp
  qed
qed

lemma length_fold_files: "length (fold_files rp rg pf gf) = card (merged_keys rp rg pf gf)"
proof -
  have "card (set (map fst (fold_files rp rg pf gf))) = length (map fst (fold_files rp rg pf gf))"
    by (rule distinct_card[OF distinct_fold_files])
  then show ?thesis
    by (simp add: keys_fold_files)
qed

lemma rows_of_key:
  assumes "k \<in> merged_keys rp rg pf gf"
  shows "filter (\<lambda>r. Date r = k) (map snd (fold_files rp rg pf gf)) =
     [\<lparr>Date = k, PR = last_written (writes rp (sort pf)) k,
       GHI = last_written (writes rg (sort gf)) k\<rparr>]"
proof -
  let ?d = "fold_files rp rg pf gf"
  let ?e = "\<lparr>Date = k, PR = last_written (writes rp (sort pf)) k,
       GHI = last_written (writes rg (sort gf)) k\<rparr>"
  have m: "map_of ?d k = Some ?e"
    using assms by (simp add: map_of_fold_files)
  have "filter (\<lambda>r. Date r = k) (map snd ?d) = map snd (filter (\<lambda>p. Date (snd p) = k) ?d)"
    by (simp add: filter_map comp_def)
  also have "filter (\<lambda>p. Date (snd p) = k) ?d = filter (\<lambda>p. fst p = k) ?d"
    by (rule filter_cong) (simp_all add: Date_snd)
  also have "\<dots> = [(k, ?e)]"
    by (rule filter_key[OF distinct_fold_files m])
  finally show ?thesis by simp
qed

lemma date_column_keys: "date_column rp rg pf gf = map fst (fold_files rp rg pf gf)"
  by (simp only: date_column_def Date_fold_files)

lemma set_date_column: "set (date_column rp rg pf gf) = merged_keys rp rg pf gf"
  by (simp add: date_column_keys keys_fold_files)

lemma to_frame_Inr:
  assumes "d \<noteq> []" and "td (map Date (map snd d)) = Some dates"
  shows "to_frame td d = Inr (sort_key Date (map (convert_row dates) (map snd d)))"
proof -
  have "convert_row dates = (\<lambda>r. \<lparr>Date = dates (Date r), PR = PR r, GHI = GHI r\<rparr>)"
    by (rule ext) (simp add: convert_row_def)
  then show ?thesis
    using assms by (simp add: to_frame_def Let_def)
qed

lemma to_frame_InrD:
  assumes "to_frame td d = Inr t"
  shows "d \<noteq> []" and "td (map Date (map snd d)) \<noteq> None"
proof -
  show "d \<noteq> []"
    using assms by (auto simp add: to_frame_def Let_def)
  show "td (map Date (map snd d)) \<noteq> None"
    using assms by (auto simp add: to_frame_def Let_def split: if_splits option.splits)
qed

lemma preprocess_data_Inr:
  assumes "k \<in> merged_keys rp rg pf gf" and "td (date_column rp rg pf gf) = Some dates"
  shows "preprocess_data rp rg td pf gf =
     Inr (sort_key Date (map (convert_row dates) (map snd (fold_files rp rg pf gf))))"
proof -
  let ?d = "fold_files rp rg pf gf"
  have "fst ` set ?d \<noteq> {}"
    using assms(1) by (auto simp add: keys_fold_files)
  then have 1: "?d \<noteq> []" by auto
  have 2: "td (map Date (map snd ?d)) = Some dates"
    using assms(2) by (simp only: date_column_def)
  show ?thesis
    unfolding preprocess_data_def by (rule to_frame_Inr[where td = td, OF 1 2])
qed

lemma preprocess_data_InrD:
  assumes "preprocess_data rp rg td pf gf = Inr t" and "td (date_column rp rg pf gf) = Some dates"
  shows "t = sort_key Date (map (convert_row dates) (map snd (fold_files rp rg pf gf)))"
proof -
  let ?d = "fold_files rp rg pf gf"
  have a: "to_frame td ?d = Inr t"
    using assms(1) by (simp add: preprocess_data_def)
  have 2: "td (map Date (map snd ?d)) = Some dates"
    using assms(2) by (simp only: date_column_def)
  from to_frame_Inr[where td = td, OF to_frame_InrD(1)[OF a] 2] a show ?thesis
    by simp
qed

lemma table_count:
  "length (filter (\<lambda>r. Date r = x)
       (sort_key Date (map (convert_row dates) (map snd (fold_files rp rg pf gf))))) =
     card {k \<in> merged_keys rp rg pf gf. dates k = x}"
proof -
  let ?d = "fold_files rp rg pf gf"
  let ?rows = "map snd ?d"
  have "filter (\<lambda>r. Date r = x) (map (convert_row dates) ?rows) =
      map (convert_row dates) (filter (\<lambda>r. dates (Date r) = x) ?rows)"
    by (simp only: filter_map comp_def convert_row_def entry.select_convs)
  then have "length (filter (\<lambda>r. Date r = x) (sort_key Date (map (convert_row dates) ?rows))) =
      length (filter (\<lambda>r. dates (Date r) = x) ?rows)"
    by (simp only: filter_sort length_sort length_map)
  also have "\<dots> = length (filter (\<lambda>k. dates k = x) (map Date ?rows))"
    by (simp only: filter_map comp_def length_map)
  also have "map Date ?rows = map fst ?d"
    by (rule Date_fold_files)
  also have "length (filter (\<lambda>k. dates k = x) (map fst ?d)) =
      card (set (filter (\<lambda>k. dates k = x) (map fst ?d)))"
    by (rule distinct_card[symmetric]) (simp add: distinct_fold_files)
  also have "set (filter (\<lambda>k. dates k = x) (map fst ?d)) =
      {k \<in> merged_keys rp rg pf gf. dates k = x}"
    by (simp only: set_filter set_map keys_fold_files)
  finally show ?thesis .
qed

lemma table_rows_of_date:
  assumes k: "k \<in> merged_keys rp rg pf gf"
    and only: "\<forall>k' \<in> merged_keys rp rg pf gf. dates k' = dates k \<longrightarrow> k' = k"
  shows "filter (\<lambda>r. Date r = dates k)
       (sort_key Date (map (convert_row dates) (map snd (fold_files rp rg pf gf)))) =
     [\<lparr>Date = dates k, PR = last_written (writes rp (sort pf)) k,
       GHI = last_written (writes rg (sort gf)) k\<rparr>]"
proof -
  let ?d = "fold_files rp rg pf gf"
  let ?rows = "map snd ?d"
  have same: "(dates (Date r) = dates k) = (Date r = k)" if "r \<in> set ?rows" for r
  proof -
    from that obtain p where p: "p \<in> set ?d" "r = snd p" by auto
    then have "Date r \<in> merged_keys rp rg pf gf"
      by (simp add: Date_snd keys_fold_files[symmetric])
    then show ?thesis
      using only by blast
  qed
  have "filter (\<lambda>r. Date r = dates k) (map (convert_row dates) ?rows) =
      map (convert_row dates) (filter (\<lambda>r. dates (Date r) = dates k) ?rows)"
    by (simp only: filter_map comp_def convert_row_def entry.select_convs)
  also have "filter (\<lambda>r. dates (Date r) = dates k) ?rows = filter (\<lambda>r. Date r = k) ?rows"
    by (rule filter_cong) (simp_all add: same)
  also have "\<dots> = [\<lparr>Date = k, PR = last_written (writes rp (sort pf)) k,
       GHI = last_written (writes rg (sort gf)) k\<rparr>]"
    by (rule rows_of_key[OF k])
  also have "map (convert_row dates) [\<lparr>Date = k, PR = last_written (writes rp (sort pf)) k,
       GHI = last_written (writes rg (sort gf)) k\<rparr>] =
      [\<lparr>Date = dates k, PR = last_written (writes rp (sort pf)) k,
       GHI = last_written (writes rg (sort gf)) k\<rparr>]"
    by (simp add: convert_row_def)
  finally have F: "filter (\<lambda>r. Date r = dates k) (map (convert_row dates) ?rows) =
      [\<lparr>Date = dates k, PR = last_written (writes rp (sort pf)) k,
       GHI = last_written (writes rg (sort gf)) k\<rparr>]" .
  show ?thesis
    by (simp only: filter_sort F) simp
qed

lemma table_has_key:
  assumes k: "k \<in> merged_keys rp rg pf gf"
  shows "\<lparr>Date = dates k, PR = last_written (writes rp (sort pf)) k,
       GHI = last_written (writes rg (sort gf)) k\<rparr>
     \<in> set (sort_key Date (map (convert_row dates) (map snd (fold_files rp rg pf gf))))"
proof -
  let ?e = "\<lparr>Date = k, PR = last_written (writes rp (sort pf)) k,
       GHI = last_written (writes rg (sort gf)) k\<rparr>"
  have "?e \<in> set (filter (\<lambda>r. Date r = k) (map snd (fold_files rp rg pf gf)))"
    by (simp only: rows_of_key[OF k]) simp
  then have "?e \<in> set (map snd (fold_files rp rg pf gf))"
    by simp
  then have "convert_row dates ?e \<in> convert_row dates ` set (map snd (fold_files rp rg pf gf))"
    by (rule imageI)
  then have "convert_row dates ?e
      \<in> set (sort_key Date (map (convert_row dates) (map snd (fold_files rp rg pf gf))))"
    by (simp only: set_sort set_map)
  moreover have "convert_row dates ?e = \<lparr>Date = dates k,
      PR = last_written (writes rp (sort pf)) k, GHI = last_written (writes rg (sort gf)) k\<rparr>"
    by (simp add: convert_row_def)
  ultimately show ?thesis
    by (simp only:)
qed

text \<open>
  Claim C3, as the code has it. The dictionary is keyed by the \<^verbatim>\<open>Date\<close> cell as read, and
  the column of cells is converted to timestamps afterwards, in one call. When that call
  accepts the column, a table is produced with one record for each distinct cell; the
  record of a cell \<open>k\<close> is dated with the timestamp of \<open>k\<close>, its PR is the last PR written
  for \<open>k\<close> and its GHI the last GHI written for \<open>k\<close> (missing when the pass never wrote
  \<open>k\<close>). The table has as many records of that date as there are cells that convert to
  it: the record of \<open>k\<close> is the only one when no other cell converts to the timestamp of
  \<open>k\<close>.
\<close>

theorem merged_record_per_key:
  assumes conv: "td (date_column rp rg pf gf) = Some dates"
    and k: "k \<in> merged_keys rp rg pf gf"
  shows "\<exists>t. preprocess_data rp rg td pf gf = Inr t \<and>
      length t = card (merged_keys rp rg pf gf) \<and>
      \<lparr>Date = dates k, PR = last_written (writes rp (sort pf)) k,
        GHI = last_written (writes rg (sort gf)) k\<rparr> \<in> set t \<and>
      length (filter (\<lambda>r. Date r = dates k) t) =
        card {k' \<in> merged_keys rp rg pf gf. dates k' = dates k} \<and>
      ((\<forall>k' \<in> merged_keys rp rg pf gf. dates k' = dates k \<longrightarrow> k' = k) \<longrightarrow>
         filter (\<lambda>r. Date r = dates k) t =
           [\<lparr>Date = dates k, PR = last_written (writes rp (sort pf)) k,
             GHI = last_written (writes rg (sort gf)) k\<rparr>])"
proof -
  let ?t = "sort_key Date (map (convert_row dates) (map snd (fold_files rp rg pf gf)))"
  have 1: "preprocess_data rp rg td pf gf = Inr ?t"
    by (rule preprocess_data_Inr[where td = td, OF k conv])
  have 2: "length ?t = card (merged_keys rp rg pf gf)"
    by (simp add: length_fold_files)
  note 3 = table_has_key[OF k, of dates]
  note 4 = table_count[of "dates k" dates rp rg pf gf]
  note 5 = table_rows_of_date[OF k, of dates]
  from 1 2 3 4 5 show ?thesis by blast
qed

lemma table_dates_sorted:
  assumes "preprocess_data rp rg td pf gf = Inr t"
    and "td (date_column rp rg pf gf) = Some dates"
  shows "sorted (map Date t) \<and>
     (sorted_wrt (<) (map Date t) \<longleftrightarrow> inj_on dates (merged_keys rp rg pf gf))"
proof -
  let ?d = "fold_files rp rg pf gf"
  let ?rows = "map snd ?d"
  note t = preprocess_data_InrD[where td = td, OF assms]
  have s: "sorted (map Date t)"
    by (simp only: t sorted_sort_key)
  have "mset (map Date t) = mset (map Date (map (convert_row dates) ?rows))"
    by (simp only: t mset_map mset_sort)
  then have "distinct (map Date t) = distinct (map Date (map (convert_row dates) ?rows))"
    by (rule mset_eq_imp_distinct_iff)
  also have "map Date (map (convert_row dates) ?rows) = map dates (map Date ?rows)"
    by (simp add: convert_row_def comp_def)
  also have "map Date ?rows = map fst ?d"
    by (rule Date_fold_files)
  also have "distinct (map dates (map fst ?d)) = inj_on dates (merged_keys rp rg pf gf)"
    using distinct_fold_files[of rp rg pf gf]
    by (simp only: distinct_map keys_fold_files[symmetric] set_map) simp
  finally have "distinct (map Date t) = inj_on dates (merged_keys rp rg pf gf)" .
  with s show ?thesis
    by (simp add: strict_sorted_iff)
qed

text \<open>
  Claim C4, as the code has it. The dates of a merged table are in ascending order; they
  are strictly ascending, that is without duplicates, exactly when no two \<^verbatim>\<open>Date\<close> cells
  read convert to the same timestamp.
\<close>

theorem merged_dates_sorted:
  assumes "preprocess_data rp rg td pf gf = Inr t"
    and "td (date_column rp rg pf gf) = Some dates"
  shows "sorted (map Date t) \<and>
     (sorted_wrt (<) (map Date t) \<longleftrightarrow> inj_on dates (merged_keys rp rg pf gf))"
  by (rule table_dates_sorted[where td = td, OF assms])

text \<open>
  Claim C9. Two enumerations of the same paths, in any order, give the same result: both
  lists of paths are sorted before they are folded.
\<close>

theorem merge_independent_of_enumeration:
  assumes "mset pf = mset pf'" and "mset gf = mset gf'"
  shows "preprocess_data rp rg td pf gf = preprocess_data rp rg td pf' gf'"
proof -
  have "sort pf = sort pf'"
    by (rule properties_for_sort) (simp_all add: assms(1))
  moreover have "sort gf = sort gf'"
    by (rule properties_for_sort) (simp_all add: assms(2))
  ultimately show ?thesis
    by (simp add: preprocess_data_def fold_files_def)
qed

section \<open>The small data set, merged\<close>

lemma example_sort: "sort [''PR/b.csv'', ''PR/a.csv''] = [''PR/a.csv'', ''PR/b.csv'']"
  by simp

lemma example_fold:
  "fold_files example_read_pr example_read_ghi [''PR/b.csv'', ''PR/a.csv''] [''GHI/g.csv''] =
     [(''2024-01-01'', \<lparr>Date = ''2024-01-01'', PR = Some 79.5, GHI = Some 5.2\<rparr>),
      (''2024-01-02'', \<lparr>Date = ''2024-01-02'', PR = Some 81, GHI = None\<rparr>)]"
  by (simp add: fold_files_def example_sort pr_file_def ghi_file_def example_read_pr_def
      example_read_ghi_def pr_row_def ghi_row_def Let_def)

lemma example_table:
  "preprocess_data example_read_pr example_read_ghi example_to_datetime
       [''PR/b.csv'', ''PR/a.csv''] [''GHI/g.csv''] =
     Inr [\<lparr>Date = (2024, 1, 1), PR = Some 79.5, GHI = Some 5.2\<rparr>,
          \<lparr>Date = (2024, 1, 2), PR = Some 81, GHI = None\<rparr>]"
  by (simp add: preprocess_data_def example_fold to_frame_def example_to_datetime_def
      example_cell_def)

lemma example_keys:
  "merged_keys example_read_pr example_read_ghi [''PR/b.csv'', ''PR/a.csv''] [''GHI/g.csv''] =
     {''2024-01-01'', ''2024-01-02''}"
  by (simp only: keys_fold_files[symmetric] example_fold) auto

lemma example_column:
  "date_column example_read_pr example_read_ghi [''PR/b.csv'', ''PR/a.csv''] [''GHI/g.csv''] =
     [''2024-01-01'', ''2024-01-02'']"
  by (simp add: date_column_def example_fold)

lemma example_conv:
  "example_to_datetime
     (date_column example_read_pr example_read_ghi [''PR/b.csv'', ''PR/a.csv''] [''GHI/g.csv'']) =
   Some (\<lambda>s. the (example_cell s))"
  by (simp only: example_column) (simp add: example_to_datetime_def example_cell_def)

lemma example_inj: "inj_on (\<lambda>s. the (example_cell s)) {''2024-01-01'', ''2024-01-02''}"
  by (simp add: example_cell_def)

lemma example_last_pr:
  "last_written (writes example_read_pr (sort [''PR/b.csv'', ''PR/a.csv''])) ''2024-01-01'' = Some 79.5"
  by (simp add: example_sort writes_def example_read_pr_def last_written_def)

lemma example_last_ghi:
  "last_written (writes example_read_ghi (sort [''GHI/g.csv''])) ''2024-01-01'' = Some 5.2"
  by (simp add: writes_def example_read_ghi_def last_written_def)

text \<open>
  The two PR files and the GHI file of January 2024: two cells, two records, and the record
  of January 1 has the PR of the file read last.
\<close>

theorem merged_record_per_key_witness:
  "merged_keys example_read_pr example_read_ghi [''PR/b.csv'', ''PR/a.csv''] [''GHI/g.csv''] =
     {''2024-01-01'', ''2024-01-02''} \<and>
   (\<exists>t. preprocess_data example_read_pr example_read_ghi example_to_datetime
          [''PR/b.csv'', ''PR/a.csv''] [''GHI/g.csv''] = Inr t \<and>
        length t = 2 \<and>
        filter (\<lambda>r. Date r = (2024, 1, 1)) t =
          [\<lparr>Date = (2024, 1, 1), PR = Some 79.5, GHI = Some 5.2\<rparr>])"
proof -
  let ?K = "merged_keys example_read_pr example_read_ghi [''PR/b.csv'', ''PR/a.csv''] [''GHI/g.csv'']"
  let ?dates = "\<lambda>s. the (example_cell s)"
  have k: "''2024-01-01'' \<in> ?K"
    by (simp add: example_keys)
  have only: "\<forall>k' \<in> ?K. ?dates k' = ?dates ''2024-01-01'' \<longrightarrow> k' = ''2024-01-01''"
    by (simp only: example_keys) (simp add: example_cell_def)
  have c: "card ?K = 2"
    by (simp add: example_keys)
  have d: "?dates ''2024-01-01'' = (2024, 1, 1)"
    by (simp add: example_cell_def)
  from merged_record_per_key[where td = example_to_datetime, OF example_conv k] only
  obtain t where "preprocess_data example_read_pr example_read_ghi example_to_datetime
          [''PR/b.csv'', ''PR/a.csv''] [''GHI/g.csv''] = Inr t"
    "length t = card ?K"
    "filter (\<lambda>r. Date r = ?dates ''2024-01-01'') t =
       [\<lparr>Date = ?dates ''2024-01-01'',
         PR = last_written (writes example_read_pr (sort [''PR/b.csv'', ''PR/a.csv''])) ''2024-01-01'',
         GHI = last_written (writes example_read_ghi (sort [''GHI/g.csv''])) ''2024-01-01''\<rparr>]"
    by blast
  then have "preprocess_data example_read_pr example_read_ghi example_to_datetime
          [''PR/b.csv'', ''PR/a.csv''] [''GHI/g.csv''] = Inr t \<and>
        length t = 2 \<and>
        filter (\<lambda>r. Date r = (2024, 1, 1)) t =
          [\<lparr>Date = (2024, 1, 1), PR = Some 79.5, GHI = Some 5.2\<rparr>]"
    by (simp only: c d example_last_pr example_last_ghi)
  then show ?thesis
    using example_keys by blast
qed

text \<open>
  Claim C3 as the specification states it fails. A PR file writes January 1 as
  \<^verbatim>\<open>2024-01-01\<close> and a GHI file writes it as \<^verbatim>\<open>2024-1-1\<close>: the merged table has two records
  dated January 1, 2024, one without GHI and one without PR.
\<close>

theorem merged_record_per_key_counterexample:
  "map_sum id mset
     (preprocess_data example_read_pr example_read_ghi example_to_datetime
        [''PR/a.csv''] [''GHI/h.csv'']) =
   Inr {#\<lparr>Date = (2024, 1, 1), PR = Some 80, GHI = None\<rparr>,
         \<lparr>Date = (2024, 1, 1), PR = None, GHI = Some 3.1\<rparr>#}"
proof -
  have "fold_files example_read_pr example_read_ghi [''PR/a.csv''] [''GHI/h.csv''] =
     [(''2024-01-01'', \<lparr>Date = ''2024-01-01'', PR = Some 80, GHI = None\<rparr>),
      (''2024-1-1'', \<lparr>Date = ''2024-1-1'', PR = None, GHI = Some 3.1\<rparr>)]"
    by (simp add: fold_files_def pr_file_def ghi_file_def example_read_pr_def
        example_read_ghi_def pr_row_def ghi_row_def Let_def)
  then show ?thesis
    by (simp add: preprocess_data_def to_frame_def example_to_datetime_def example_cell_def)
qed

text \<open>The table of the two PR files and the GHI file of January 2024.\<close>

theorem merged_dates_sorted_witness:
  "preprocess_data example_read_pr example_read_ghi example_to_datetime
       [''PR/b.csv'', ''PR/a.csv''] [''GHI/g.csv''] =
     Inr [\<lparr>Date = (2024, 1, 1), PR = Some 79.5, GHI = Some 5.2\<rparr>,
          \<lparr>Date = (2024, 1, 2), PR = Some 81, GHI = None\<rparr>] \<and>
   sorted_wrt (<) (map Date [\<lparr>Date = (2024, 1, 1) :: timestamp, PR = Some 79.5, GHI = Some 5.2\<rparr>,
          \<lparr>Date = (2024, 1, 2), PR = Some 81, GHI = None\<rparr>])"
proof -
  have "inj_on (\<lambda>s. the (example_cell s))
      (merged_keys example_read_pr example_read_ghi [''PR/b.csv'', ''PR/a.csv''] [''GHI/g.csv''])"
    by (simp only: example_keys example_inj)
  with merged_dates_sorted[where td = example_to_datetime, OF example_table example_conv]
    example_table show ?thesis
    by blast
qed

text \<open>
  Claim C4 as the specification states it fails. Two PR files write January 1 as
  \<^verbatim>\<open>2024-01-01\<close> and as \<^verbatim>\<open>2024-1-1\<close>: the date column of the merged table holds January 1,
  2024 twice.
\<close>

theorem merged_dates_sorted_counterexample:
  "map_sum id (map Date)
     (preprocess_data example_read_pr example_read_ghi example_to_datetime
        [''PR/c.csv'', ''PR/a.csv''] []) =
   Inr [(2024, 1, 1), (2024, 1, 1)]"
proof -
  have "sort [''PR/c.csv'', ''PR/a.csv''] = [''PR/a.csv'', ''PR/c.csv'']"
    by simp
  then have "fold_files example_read_pr example_read_ghi [''PR/c.csv'', ''PR/a.csv''] [] =
     [(''2024-01-01'', \<lparr>Date = ''2024-01-01'', PR = Some 80, GHI = None\<rparr>),
      (''2024-1-1'', \<lparr>Date = ''2024-1-1'', PR = Some 82, GHI = None\<rparr>)]"
    by (simp add: fold_files_def pr_file_def ghi_file_def example_read_pr_def
        example_read_ghi_def pr_row_def ghi_row_def Let_def)
  then show ?thesis
    by (simp add: preprocess_data_def to_frame_def example_to_datetime_def example_cell_def)
qed

text \<open>The two PR files, enumerated in either order.\<close>

theorem merge_independent_of_enumeration_witness:
  "mset [''PR/b.csv'', ''PR/a.csv''] = mset [''PR/a.csv'', ''PR/b.csv''] \<and>
   preprocess_data example_read_pr example_read_ghi example_to_datetime
       [''PR/b.csv'', ''PR/a.csv''] [''GHI/g.csv''] =
   preprocess_data example_read_pr example_read_ghi example_to_datetime
       [''PR/a.csv'', ''PR/b.csv''] [''GHI/g.csv'']"
proof -
  have m: "mset [''PR/b.csv'', ''PR/a.csv''] = mset [''PR/a.csv'', ''PR/b.csv'']"
    by (simp add: add_mset_commute)
  have g: "mset [''GHI/g.csv''] = mset [''GHI/g.csv'']"
    by simp
  from merge_independent_of_enumeration[OF m g] m show ?thesis
    by blast
qed

section \<open>Means, tails and rolling windows\<close>











section \<open>The statistics of the chart\<close>

lemma series_min_Min:
  assumes "xs \<noteq> []"
  shows "series_min xs = Some (Min (set xs))"
proof (cases xs)
  case Nil
  with assms show ?thesis by simp
next
  case (Cons x ys)
  then show ?thesis
    by (simp only: series_min_def list.case Min.set_eq_fold)
qed

lemma budget_positive: "0 < calculate_budget_pr ep d"
  by (simp add: calculate_budget_pr_def)

lemma epoch_le_first:
  assumes "1 \<le> day f"
  shows "(if 7 \<le> month f then year f else year f - 1, 7, 1) \<le> f"
proof -
  obtain y m d where f: "f = (y, m, d)" by (cases f)
  with assms show ?thesis
    by (auto simp add: year_def month_def day_def)
qed

lemma first_before_next_epoch:
  "f < ((if 7 \<le> month f then year f else year f - 1) + 1, 7, 1)"
proof -
  obtain y m d where f: "f = (y, m, d)" by (cases f)
  then show ?thesis
    by (auto simp add: year_def month_def day_def)
qed

lemma budget_start_date_None: "budget_start_date et None = Inl ValueError"
  by (simp add: budget_start_date_def ref_year_def)

lemma generate_graph_empty:
  assumes "date_filter df s e = []"
  shows "generate_graph et df s e = Inl ValueError"
  by (simp add: generate_graph_def assms series_min_def budget_start_date_None)

lemma first_date_of_plot:
  assumes ne: "plot \<noteq> []"
  shows "series_min (map Date plot) = Some (Min (set (map Date plot)))"
    and "Min (set (map Date plot)) \<in> Date ` set plot"
proof -
  have dates: "map Date plot \<noteq> []"
    using ne by simp
  show "series_min (map Date plot) = Some (Min (set (map Date plot)))"
    by (rule series_min_Min[OF dates])
  have "Min (set (map Date plot)) \<in> set (map Date plot)"
    by (rule Min_in) (use dates in simp_all)
  then show "Min (set (map Date plot)) \<in> Date ` set plot"
    by simp
qed

lemma ref_year_of_plot:
  assumes ne: "plot \<noteq> []"
  shows "ref_year (series_min (map Date plot)) =
     Some (if 7 \<le> month (Min (set (map Date plot))) then year (Min (set (map Date plot)))
           else year (Min (set (map Date plot))) - 1)"
  by (simp only: first_date_of_plot(1)[OF ne]) (simp add: ref_year_def)

lemma epoch_of_plot:
  assumes ne: "plot \<noteq> []"
    and parse: "\<forall>y. ref_year (series_min (map Date plot)) = Some y \<longrightarrow> et y = Inr (y, 7, 1)"
  shows "budget_start_date et (series_min (map Date plot)) =
     Inr (if 7 \<le> month (Min (set (map Date plot))) then year (Min (set (map Date plot)))
          else year (Min (set (map Date plot))) - 1, 7, 1)"
proof -
  note r = ref_year_of_plot[OF ne]
  from parse r have "et (if 7 \<le> month (Min (set (map Date plot)))
      then year (Min (set (map Date plot))) else year (Min (set (map Date plot))) - 1) =
     Inr (if 7 \<le> month (Min (set (map Date plot))) then year (Min (set (map Date plot)))
          else year (Min (set (map Date plot))) - 1, 7, 1)"
    by blast
  then show ?thesis
    by (simp only: budget_start_date_def r option.case)
qed

lemma generate_graph_Inr:
  assumes ne: "date_filter df s e \<noteq> []"
    and parse: "\<forall>y. ref_year (series_min (map Date (date_filter df s e))) = Some y \<longrightarrow>
       et y = Inr (y, 7, 1)"
  shows "\<exists>st. generate_graph et df s e = Inr st"
  by (simp add: generate_graph_def Let_def epoch_of_plot[where et = et, OF ne parse])

lemma generate_graph_InrD:
  assumes "generate_graph et df s e = Inr st"
  shows "date_filter df s e \<noteq> []"
  using assms generate_graph_empty[of df s e et] by auto

lemma generate_graph_fields:
  assumes "generate_graph et df s e = Inr st"
  shows "PR_MA_30 st = rolling_mean 30 1 (map PR (date_filter df s e))"
    and "first_date st = series_min (map Date (date_filter df s e))"
    and "budget_start_date et (first_date st) = Inr (epoch st)"
    and "Budget_PR st = map (\<lambda>r. calculate_budget_pr (epoch st) (Date r)) (date_filter df s e)"
    and "last_7_avg st = last_avg 7 (date_filter df s e)"
    and "last_30_avg st = last_avg 30 (date_filter df s e)"
    and "last_60_avg st = last_avg 60 (date_filter df s e)"
    and "last_90_avg st = last_avg 90 (date_filter df s e)"
    and "last_365_avg st = last_avg 365 (date_filter df s e)"
    and "lifetime_avg st = lifetime_avg_of (date_filter df s e)"
  using assms
  by (auto simp add: generate_graph_def Let_def split: sum.splits)

text \<open>
  Claim C5, as the code has it. The epoch is parsed from a string that holds the reference
  year without padding, so the claim holds where \<^verbatim>\<open>pd.Timestamp\<close> reads that string as
  July 1 of the year it was written from, as it does for a year of four digits. When it
  does, for a plotted table that is not empty and whose dates are calendar days,
  \<^verbatim>\<open>generate_graph\<close> does not raise. With \<open>f\<close> the first date, the epoch is July 1 of the year of \<open>f\<close> when
  the month of \<open>f\<close> is July or later and July 1 of the previous year otherwise; it is the
  latest July 1 that is not after \<open>f\<close>, so that no plotted date is before it: the days
  elapsed are not negative and the budget of a plotted date is at most 73.9. The budget is
  computed at every plotted date, and it is a positive number at any date, before or after
  the epoch.
\<close>

theorem epoch_is_latest_july:
  assumes ne: "date_filter df s e \<noteq> []"
    and valid: "\<forall>r \<in> set (date_filter df s e). valid_date (Date r)"
    and parse: "\<forall>y. ref_year (series_min (map Date (date_filter df s e))) = Some y \<longrightarrow>
       et y = Inr (y, 7, 1)"
  shows "\<exists>st f. generate_graph et df s e = Inr st \<and> first_date st = Some f \<and>
      f \<in> Date ` set (date_filter df s e) \<and>
      (\<forall>r \<in> set (date_filter df s e). f \<le> Date r \<and> epoch st \<le> Date r) \<and>
      epoch st = (if 7 \<le> month f then year f else year f - 1, 7, 1) \<and>
      epoch st \<le> f \<and> f < (year (epoch st) + 1, 7, 1) \<and>
      (\<forall>r \<in> set (date_filter df s e). 0 \<le> days_between (Date r) (epoch st) \<and>
         calculate_budget_pr (epoch st) (Date r) \<le> 73.9) \<and>
      Budget_PR st = map (\<lambda>r. calculate_budget_pr (epoch st) (Date r)) (date_filter df s e) \<and>
      (\<forall>d. 0 < calculate_budget_pr (epoch st) d)"
proof -
  let ?plot = "date_filter df s e"
  let ?f = "Min (set (map Date ?plot))"
  from generate_graph_Inr[where et = et, OF ne parse] obtain st where
    st: "generate_graph et df s e = Inr st"
    by blast
  note fd = first_date_of_plot[OF ne]
  have f: "first_date st = Some ?f"
    by (simp only: generate_graph_fields(2)[OF st] fd(1))
  note mem' = fd(2)
  from mem' valid have "valid_date ?f"
    by auto
  then have day: "1 \<le> day ?f"
    by (simp add: valid_date_def)
  have low: "\<forall>r \<in> set ?plot. ?f \<le> Date r"
    by (simp add: Min_le)
  have "budget_start_date et (series_min (map Date ?plot)) = Inr (epoch st)"
    using generate_graph_fields(3)[OF st] by (simp only: generate_graph_fields(2)[OF st])
  then have ep: "epoch st = (if 7 \<le> month ?f then year ?f else year ?f - 1, 7, 1)"
    by (simp only: epoch_of_plot[where et = et, OF ne parse] sum.inject)
  have le: "epoch st \<le> ?f"
    by (simp only: ep epoch_le_first[OF day])
  have "year (epoch st) = (if 7 \<le> month ?f then year ?f else year ?f - 1)"
    by (simp add: ep year_def)
  then have lt: "?f < (year (epoch st) + 1, 7, 1)"
    by (simp only: first_before_next_epoch)
  have all: "\<forall>r \<in> set ?plot. ?f \<le> Date r \<and> epoch st \<le> Date r"
    using low le by (meson order_trans)
  have vep: "valid_date (epoch st)"
    by (simp only: ep valid_july_1)
  have el: "0 \<le> days_between (Date r) (epoch st) \<and>
      calculate_budget_pr (epoch st) (Date r) \<le> 73.9" if "r \<in> set ?plot" for r
  proof -
    have "toordinal (epoch st) \<le> toordinal (Date r)"
      by (rule toordinal_mono[OF vep]) (use that valid all in simp_all)
    then have "0 \<le> days_between (Date r) (epoch st)"
      by (simp add: days_between_def)
    then show ?thesis
      using budget_at_most_initial by blast
  qed
  note b = generate_graph_fields(4)[OF st]
  have pos: "\<forall>d. 0 < calculate_budget_pr (epoch st) d"
    by (simp add: budget_positive)
  from st f mem' all ep le lt el b pos show ?thesis
    by blast
qed

lemma example_plot: "date_filter example_df None None = example_df"
  by (simp add: date_filter_def)

lemma example_nonempty: "date_filter example_df None None \<noteq> []"
  by (simp only: example_plot) (simp add: example_df_def)

lemma example_valid: "\<forall>r \<in> set (date_filter example_df None None). valid_date (Date r)"
  by (simp only: example_plot)
    (simp add: example_df_def valid_date_def days_in_month_def month_def day_def year_def)

lemma example_parse:
  "\<forall>y. ref_year (series_min (map Date (date_filter example_df None None))) = Some y \<longrightarrow>
     example_epoch_timestamp y = Inr (y, 7, 1)"
  by (simp only: example_plot)
    (simp add: example_df_def series_min_def ref_year_def month_def year_def
      example_epoch_timestamp_def)

text \<open>The table of January 1 and 2, 2024: the epoch is July 1, 2023.\<close>

theorem epoch_is_latest_july_witness:
  "date_filter example_df None None = example_df \<and>
   (\<exists>st. generate_graph example_epoch_timestamp example_df None None = Inr st \<and>
      first_date st = Some (2024, 1, 1) \<and> epoch st = (2023, 7, 1))"
proof -
  from epoch_is_latest_july[where et = example_epoch_timestamp,
      OF example_nonempty example_valid example_parse]
  obtain st f where
    st: "generate_graph example_epoch_timestamp example_df None None = Inr st" and
    f: "first_date st = Some f" and
    mem: "f \<in> Date ` set (date_filter example_df None None)" and
    low: "\<forall>r \<in> set (date_filter example_df None None). f \<le> Date r" and
    ep: "epoch st = (if 7 \<le> month f then year f else year f - 1, 7, 1)"
    by blast
  from mem have "f \<in> Date ` set example_df"
    by (simp only: example_plot)
  then have "f = (2024, 1, 1) \<or> f = (2024, 1, 2)"
    by (simp add: example_df_def)
  moreover from low have "\<forall>r \<in> set example_df. f \<le> Date r"
    by (simp only: example_plot)
  then have "f \<le> (2024, 1, 1)"
    by (simp add: example_df_def)
  ultimately have f1: "f = (2024, 1, 1)"
    by auto
  have "epoch st = (2023, 7, 1)"
    by (simp add: ep f1 month_def year_def)
  with st f f1 example_plot show ?thesis
    by blast
qed

text \<open>
  Claim C5 as the specification states it fails. For a table whose first date is January
  1 of the year 100 the reference year is 99, the epoch string is \<^verbatim>\<open>'99-07-01'\<close> and the
  epoch is July 1, 1999, nineteen centuries after the first date. For a first date of
  January 1 of the year 1 the string is \<^verbatim>\<open>'0-07-01'\<close> and \<^verbatim>\<open>generate_graph\<close> raises.
\<close>

theorem epoch_is_latest_july_counterexample:
  "map_sum id epoch
     (generate_graph example_epoch_timestamp
        [\<lparr>Date = (100, 1, 1), PR = Some 70, GHI = None\<rparr>] None None) = Inr (1999, 7, 1) \<and>
   generate_graph example_epoch_timestamp
     [\<lparr>Date = (1, 1, 1), PR = Some 70, GHI = None\<rparr>] None None = Inl ValueError"
proof -
  have a: "budget_start_date example_epoch_timestamp (Some (100, 1, 1)) = Inr (1999, 7, 1)"
    by (simp add: budget_start_date_def ref_year_def month_def year_def example_epoch_timestamp_def)
  have b: "budget_start_date example_epoch_timestamp (Some (1, 1, 1)) = Inl ValueError"
    by (simp add: budget_start_date_def ref_year_def month_def year_def example_epoch_timestamp_def)
  have "map_sum id epoch
     (generate_graph example_epoch_timestamp
        [\<lparr>Date = (100, 1, 1), PR = Some 70, GHI = None\<rparr>] None None) = Inr (1999, 7, 1)"
    by (simp add: generate_graph_def date_filter_def series_min_def Let_def a)
  moreover have "generate_graph example_epoch_timestamp
     [\<lparr>Date = (1, 1, 1), PR = Some 70, GHI = None\<rparr>] None None = Inl ValueError"
    by (simp add: generate_graph_def date_filter_def series_min_def Let_def b)
  ultimately show ?thesis
    by blast
qed










text \<open>
  Claim C2 fails on the code: whenever the plotted table has no row, \<^verbatim>\<open>generate_graph\<close>
  raises \<^verbatim>\<open>ValueError\<close> at line 145, where it builds the epoch from the undefined first
  date, and reports no statistic. The guard of line 161 on the number of rows shows that
  a table of no rows was meant to be handled.
\<close>

theorem generate_graph_empty_raises:
  assumes "date_filter df s e = []"
  shows "generate_graph et df s e = Inl ValueError"
  by (rule generate_graph_empty[OF assms])

text \<open>
  The table of January 1 and 2, 2024, plotted from January 1, 2025, and the table of no
  rows.
\<close>

theorem generate_graph_empty_raises_witness:
  "date_filter example_df (Some (2025, 1, 1)) None = [] \<and>
   generate_graph example_epoch_timestamp example_df (Some (2025, 1, 1)) None = Inl ValueError \<and>
   generate_graph example_epoch_timestamp [] None None = Inl ValueError"
proof -
  have a: "date_filter example_df (Some (2025, 1, 1)) None = []"
    by (simp add: date_filter_def example_df_def)
  have b: "date_filter [] None None = []"
    by (simp add: date_filter_def)
  from generate_graph_empty_raises[OF a, of example_epoch_timestamp]
    generate_graph_empty_raises[OF b, of example_epoch_timestamp] a
  show ?thesis
    by blast
qed

end
